theory Spec2Isabelle
  imports Main
begin

section \<open>The migration runner of tools/migrate/runner.go\<close>

text \<open>
  The development embeds \<^verbatim>\<open>src/tools/migrate/runner.go\<close>: the Runner that applies and
  reverts an ordered list of migrations against a relational store and keeps the ledger
  table \<^verbatim>\<open>_migrations\<close> of the applied ones.

  Go's \<^verbatim>\<open>int\<close> is modelled by \<open>int\<close>: the only arithmetic of the runner on a count is
  \<^verbatim>\<open>toRevertCount-totalReverted\<close> with \<^verbatim>\<open>totalReverted\<close> equal to 0, which cannot wrap.
\<close>

subsection \<open>Errors\<close>

text \<open>
  A Go \<^verbatim>\<open>error\<close> is either a plain message or a message wrapping a cause, as
  \<^verbatim>\<open>fmt.Errorf\<close> builds it with the verb \<^verbatim>\<open>%w\<close>.
\<close>

datatype error = ErrorString string | WrapError string error

fun Error :: "error \<Rightarrow> string" where
  "Error (ErrorString s) = s"
| "Error (WrapError s cause) = s"

fun Unwrap :: "error \<Rightarrow> error option" where
  "Unwrap (ErrorString s) = None"
| "Unwrap (WrapError s cause) = Some cause"

text \<open>\<^verbatim>\<open>fmt.Errorf(prefix + "%s: %w", file, err)\<close>: the message is the prefix, the file,
  a colon and the message of the cause; the cause stays reachable through \<open>Unwrap\<close>.\<close>

definition Errorf_w :: "string \<Rightarrow> string \<Rightarrow> error \<Rightarrow> error" where
  "Errorf_w prefix file err = WrapError (prefix @ file @ '': '' @ Error err) err"

subsection \<open>The store\<close>

text \<open>
  The query layer (package dbx) is an external collaborator of the runner. It is modelled
  by the statements the runner sends and by what a relational store does with them.
  A table of the ledger's schema \<^verbatim>\<open>(file VARCHAR(255) PRIMARY KEY NOT NULL, applied INTEGER NOT NULL)\<close>
  is the list of its rows; the primary key is enforced by the insert statement.
  Everything else a migration may read or write is the component \<open>user_data\<close>.
  \<open>ddl_log\<close> records the schema statements submitted to the store, in order.
\<close>

datatype stmt =
    Begin
  | Commit
  | CreateTableIfNotExists string
  | SelectCount string string
  | InsertRow string string
  | DeleteRows string string

record 's database =
  tables :: "string \<rightharpoonup> (string \<times> int) list"
  user_data :: 's
  ddl_log :: "stmt list"

text \<open>
  A connection handle (\<^verbatim>\<open>*dbx.DB\<close>). Statements can fail for reasons outside the runner
  (connectivity, privileges): \<open>faults c q = Some err\<close> says that the store answers statement
  \<open>q\<close> with the error \<open>err\<close>.
\<close>

record conn =
  faults :: "stmt \<Rightarrow> error option"

definition no_such_table :: "string \<Rightarrow> error" where
  "no_such_table name = ErrorString (''no such table: '' @ name)"

definition unique_violation :: "string \<Rightarrow> error" where
  "unique_violation name = ErrorString (''UNIQUE constraint failed: '' @ name @ ''.file'')"

text \<open>\<^verbatim>\<open>CREATE TABLE IF NOT EXISTS name (...)\<close>: the statement is logged; an existing table
  is left as it is, a missing one is created empty.\<close>

definition exec_create_table :: "conn \<Rightarrow> string \<Rightarrow> 's database \<Rightarrow> error option \<times> 's database" where
  "exec_create_table c name d =
     (let d1 = d\<lparr>ddl_log := ddl_log d @ [CreateTableIfNotExists name]\<rparr> in
      case faults c (CreateTableIfNotExists name) of
        Some err \<Rightarrow> (Some err, d1)
      | None \<Rightarrow>
          (case tables d name of
             Some rows \<Rightarrow> (None, d1)
           | None \<Rightarrow> (None, d1\<lparr>tables := (tables d)(name \<mapsto> [])\<rparr>)))"

text \<open>\<^verbatim>\<open>SELECT count(*) FROM name WHERE file = f LIMIT 1\<close>.\<close>

definition select_count :: "conn \<Rightarrow> 's database \<Rightarrow> string \<Rightarrow> string \<Rightarrow> error + nat" where
  "select_count c tx name f =
     (case faults c (SelectCount name f) of
        Some err \<Rightarrow> Inl err
      | None \<Rightarrow>
          (case tables tx name of
             None \<Rightarrow> Inl (no_such_table name)
           | Some rows \<Rightarrow> Inr (length (filter (\<lambda>row. fst row = f) rows))))"

text \<open>Scanning an integer column into a Go \<^verbatim>\<open>bool\<close> (database/sql): 0 and 1 convert,
  every other value is a conversion error.\<close>

definition scan_bool :: "nat \<Rightarrow> error + bool" where
  "scan_bool n =
     (if n = 0 then Inr False
      else if n = 1 then Inr True
      else Inl (ErrorString ''sql/driver: could not convert the value into type bool''))"

text \<open>\<^verbatim>\<open>INSERT INTO name (file, applied) VALUES (f, t)\<close>, rejected when a row with the key
  \<open>f\<close> exists.\<close>

definition insert_row :: "conn \<Rightarrow> 's database \<Rightarrow> string \<Rightarrow> string \<Rightarrow> int \<Rightarrow> error + 's database" where
  "insert_row c tx name f t =
     (case faults c (InsertRow name f) of
        Some err \<Rightarrow> Inl err
      | None \<Rightarrow>
          (case tables tx name of
             None \<Rightarrow> Inl (no_such_table name)
           | Some rows \<Rightarrow>
               if f \<in> fst ` set rows then Inl (unique_violation name)
               else Inr (tx\<lparr>tables := (tables tx)(name \<mapsto> rows @ [(f, t)])\<rparr>)))"

text \<open>\<^verbatim>\<open>DELETE FROM name WHERE file = f\<close>.\<close>

definition delete_rows :: "conn \<Rightarrow> 's database \<Rightarrow> string \<Rightarrow> string \<Rightarrow> error + 's database" where
  "delete_rows c tx name f =
     (case faults c (DeleteRows name f) of
        Some err \<Rightarrow> Inl err
      | None \<Rightarrow>
          (case tables tx name of
             None \<Rightarrow> Inl (no_such_table name)
           | Some rows \<Rightarrow>
               Inr (tx\<lparr>tables := (tables tx)(name \<mapsto> filter (\<lambda>row. fst row \<noteq> f) rows)\<rparr>)))"

text \<open>
  \<^verbatim>\<open>db.Transactional(f)\<close>: begin a transaction, run \<open>f\<close> in it, commit when \<open>f\<close> returns no
  error and roll back to the state before the call when it returns one. A failed begin
  or commit is returned as the error of the call and leaves the store as it was.
\<close>

definition Transactional ::
  "conn \<Rightarrow> ('s database \<Rightarrow> error + ('a \<times> 's database)) \<Rightarrow> 's database \<Rightarrow> (error + 'a) \<times> 's database" where
  "Transactional c f d =
     (case faults c Begin of
        Some err \<Rightarrow> (Inl err, d)
      | None \<Rightarrow>
          (case f d of
             Inl err \<Rightarrow> (Inl err, d)
           | Inr (x, tx) \<Rightarrow>
               (case faults c Commit of
                  Some err \<Rightarrow> (Inl err, d)
                | None \<Rightarrow> (Inr x, tx))))"

subsection \<open>Migrations and the migrations list\<close>

text \<open>
  Modelled from the spec: the types \<^verbatim>\<open>Migration\<close> and \<^verbatim>\<open>MigrationsList\<close> are declared
  outside \<^verbatim>\<open>runner.go\<close>. A unit is a named pair of forward and backward operations, each
  taking the transactional handle and returning success or failure; the list is an
  ordered sequence with sequential (\<^verbatim>\<open>Items\<close>) and indexed (\<^verbatim>\<open>Item\<close>) access.
  An operation works on the whole store inside the transaction; when it fails its
  partial effects are discarded with the transaction.
\<close>

record 's Migration =
  "file" :: string
  up :: "'s database \<Rightarrow> error + 's database"
  down :: "'s database \<Rightarrow> error + 's database"

type_synonym 's MigrationsList = "'s Migration list"

definition Items :: "'s MigrationsList \<Rightarrow> 's Migration list" where
  "Items l = l"

definition Item :: "'s MigrationsList \<Rightarrow> nat \<Rightarrow> 's Migration" where
  "Item l i = l ! i"

subsection \<open>The Runner\<close>

definition migrationsTable :: string where
  "migrationsTable = ''_migrations''"

record 's Runner =
  db :: conn
  migrationsList :: "'s MigrationsList"
  tableName :: string

definition createMigrationsTable :: "'s Runner \<Rightarrow> 's database \<Rightarrow> error option \<times> 's database" where
  "createMigrationsTable r d = exec_create_table (db r) (tableName r) d"

text \<open>\<^verbatim>\<open>NewRunner\<close> returns the runner, or the error of the bootstrap and no runner.\<close>

definition NewRunner :: "conn \<Rightarrow> 's MigrationsList \<Rightarrow> 's database \<Rightarrow> (error + 's Runner) \<times> 's database" where
  "NewRunner c l d =
     (let runner = \<lparr>db = c, migrationsList = l, tableName = migrationsTable\<rparr> in
      case createMigrationsTable runner d of
        (Some err, d1) \<Rightarrow> (Inl err, d1)
      | (None, d1) \<Rightarrow> (Inr runner, d1))"

text \<open>\<^verbatim>\<open>return err == nil && exists\<close>: a failed query and a failed scan both read as
  "not applied".\<close>

definition isMigrationApplied :: "'s Runner \<Rightarrow> 's database \<Rightarrow> string \<Rightarrow> bool" where
  "isMigrationApplied r tx f =
     (case select_count (db r) tx (tableName r) f of
        Inl err \<Rightarrow> False
      | Inr n \<Rightarrow> (case scan_bool n of Inl err \<Rightarrow> False | Inr exists \<Rightarrow> exists))"

text \<open>The row carries \<^verbatim>\<open>time.Now().Unix()\<close>; \<open>now f\<close> is the reading of the clock when the
  row of \<open>f\<close> is written.\<close>

definition saveAppliedMigration ::
  "'s Runner \<Rightarrow> (string \<Rightarrow> int) \<Rightarrow> 's database \<Rightarrow> string \<Rightarrow> error + 's database" where
  "saveAppliedMigration r now tx f = insert_row (db r) tx (tableName r) f (now f)"

definition saveRevertedMigration :: "'s Runner \<Rightarrow> 's database \<Rightarrow> string \<Rightarrow> error + 's database" where
  "saveRevertedMigration r tx f = delete_rows (db r) tx (tableName r) f"

text \<open>The body of the loop of \<^verbatim>\<open>Up\<close> (lines 167-182), over the remaining items, with the
  list \<open>applied\<close> built so far and the state of the transaction.\<close>

fun up_loop ::
  "'s Runner \<Rightarrow> (string \<Rightarrow> int) \<Rightarrow> 's Migration list \<Rightarrow> string list \<Rightarrow> 's database
     \<Rightarrow> error + (string list \<times> 's database)" where
  "up_loop r now [] applied tx = Inr (applied, tx)"
| "up_loop r now (m # ms) applied tx =
     (if isMigrationApplied r tx (file m) then up_loop r now ms applied tx
      else
        (case up m tx of
           Inl err \<Rightarrow> Inl (Errorf_w ''Failed to apply migration '' (file m) err)
         | Inr tx1 \<Rightarrow>
             (case saveAppliedMigration r now tx1 (file m) of
                Inl err \<Rightarrow> Inl (Errorf_w ''Failed to save applied migration info for '' (file m) err)
              | Inr tx2 \<Rightarrow> up_loop r now ms (applied @ [file m]) tx2)))"

definition Up :: "'s Runner \<Rightarrow> (string \<Rightarrow> int) \<Rightarrow> 's database \<Rightarrow> (error + string list) \<times> 's database" where
  "Up r now d = Transactional (db r) (up_loop r now (Items (migrationsList r)) []) d"

text \<open>
  The loop of \<^verbatim>\<open>Down\<close> (lines 202-224). The counter \<open>k\<close> is \<^verbatim>\<open>i + 1\<close>: the loop ends when
  \<^verbatim>\<open>i\<close> falls below 0, and each round looks at \<^verbatim>\<open>Item(i)\<close>. \<open>totalReverted\<close> is passed on
  unchanged, since no statement of the source assigns it after its initialisation.
\<close>

fun down_loop ::
  "'s Runner \<Rightarrow> int \<Rightarrow> nat \<Rightarrow> int \<Rightarrow> string list \<Rightarrow> 's database
     \<Rightarrow> error + (string list \<times> 's database)" where
  "down_loop r toRevertCount 0 totalReverted applied tx = Inr (applied, tx)"
| "down_loop r toRevertCount (Suc i) totalReverted applied tx =
     (let m = Item (migrationsList r) i in
      if \<not> isMigrationApplied r tx (file m) then
        down_loop r toRevertCount i totalReverted applied tx
      else if toRevertCount - totalReverted \<le> 0 then Inr (applied, tx)
      else
        (case down m tx of
           Inl err \<Rightarrow> Inl (Errorf_w ''Failed to revert migration '' (file m) err)
         | Inr tx1 \<Rightarrow>
             (case saveRevertedMigration r tx1 (file m) of
                Inl err \<Rightarrow> Inl (Errorf_w ''Failed to save reverted migration info for '' (file m) err)
              | Inr tx2 \<Rightarrow> down_loop r toRevertCount i totalReverted (applied @ [file m]) tx2)))"

definition Down :: "'s Runner \<Rightarrow> int \<Rightarrow> 's database \<Rightarrow> (error + string list) \<times> 's database" where
  "Down r toRevertCount d =
     Transactional (db r)
       (down_loop r toRevertCount (length (Items (migrationsList r))) 0 []) d"

subsection \<open>The interactive command layer\<close>

text \<open>
  \<^verbatim>\<open>Run\<close> talks to collaborators outside the runner: the conversion \<^verbatim>\<open>cast.ToInt\<close>, the
  confirmation prompt (\<open>AskOne\<close> gives the user's answer to a message), the working
  directory, \<^verbatim>\<open>path.Join\<close>, the clock, \<^verbatim>\<open>inflector.Snakecase\<close>, the two file-system calls
  (only their error is modelled), the quoting of the verb \<^verbatim>\<open>%q\<close> and the constant
  \<^verbatim>\<open>createTemplateContent\<close>. They are the fields of a \<open>shell\<close>.
\<close>

record shell =
  ToInt :: "string \<Rightarrow> int"
  AskOne :: "string \<Rightarrow> bool"
  Getwd :: "error + string"
  Join :: "string \<Rightarrow> string \<Rightarrow> string"
  Unix :: int
  Snakecase :: "string \<Rightarrow> string"
  MkdirAll :: "string \<Rightarrow> error option"
  WriteFile :: "string \<Rightarrow> string \<Rightarrow> error option"
  Quote :: "string \<Rightarrow> string"
  createTemplateContent :: string

text \<open>What \<^verbatim>\<open>Run\<close> shows on the terminal: coloured lines, plain lines and prompts.\<close>

datatype printed = Red string | Green string | Plain string | Prompt string

text \<open>The verb \<^verbatim>\<open>%d\<close>: decimal digits, with a minus sign for a negative number.\<close>

fun digits :: "nat \<Rightarrow> string" where
  "digits n =
     (if n < 10 then [''0123456789'' ! n]
      else digits (n div 10) @ [''0123456789'' ! (n mod 10)])"

definition itoa :: "int \<Rightarrow> string" where
  "itoa i = (if i < 0 then CHR ''-'' # digits (nat (- i)) else digits (nat i))"

definition newline :: string where
  "newline = [CHR 0x0A]"

text \<open>Lines 54-68: the case \<^verbatim>\<open>"up"\<close>.\<close>

definition run_up ::
  "'s Runner \<Rightarrow> (string \<Rightarrow> int) \<Rightarrow> 's database \<Rightarrow> (error option \<times> printed list) \<times> 's database" where
  "run_up r now d =
     (case Up r now d of
        (Inl err, d1) \<Rightarrow> ((Some err, [Red (Error err)]), d1)
      | (Inr applied, d1) \<Rightarrow>
          ((None,
            if length applied = 0 then [Green ''No new migrations to apply.'']
            else map (\<lambda>f. Green (''Applied '' @ f)) applied), d1))"

text \<open>Lines 79-103: the prompt, the call of \<^verbatim>\<open>Down\<close> and the report, for the count
  computed by lines 70-77.\<close>

definition run_down ::
  "shell \<Rightarrow> 's Runner \<Rightarrow> int \<Rightarrow> 's database \<Rightarrow> (error option \<times> printed list) \<times> 's database" where
  "run_down sh r toRevertCount d =
     (let message = ''Do you really want to revert the last '' @ itoa toRevertCount
                      @ '' applied migration(s)?'' in
      if \<not> AskOne sh message then
        ((None, [Prompt message, Plain ''The command has been cancelled'']), d)
      else
        (case Down r toRevertCount d of
           (Inl err, d1) \<Rightarrow> ((Some err, [Prompt message, Red (Error err)]), d1)
         | (Inr reverted, d1) \<Rightarrow>
             ((None,
               Prompt message #
                 (if length reverted = 0 then [Green ''No migrations to revert.'']
                  else map (\<lambda>f. Green (''Reverted '' @ f)) reverted)), d1)))"

text \<open>Lines 105-154: the case \<^verbatim>\<open>"create"\<close>. It does not touch the store.\<close>

definition run_create :: "shell \<Rightarrow> string list \<Rightarrow> error option \<times> printed list" where
  "run_create sh args =
     (if length args < 2 then (Some (ErrorString ''Missing migration file name''), [])
      else
        (let name = args ! 1;
             dir0 = (if length args = 3 then args ! 2 else []) in
         case (if dir0 = [] then
                 (case Getwd sh of
                    Inl err \<Rightarrow> Inl err
                  | Inr wd \<Rightarrow> Inr (Join sh wd ''migrations''))
               else Inr dir0) of
           Inl err \<Rightarrow> (Some err, [])
         | Inr dir \<Rightarrow>
             (let resultFilePath =
                    Join sh dir (itoa (Unix sh) @ ''_'' @ Snakecase sh name @ ''.go'');
                  message = ''Do you really want to create migration ''
                              @ Quote sh resultFilePath @ ''?'' in
              if \<not> AskOne sh message then
                (None, [Prompt message, Plain ''The command has been cancelled''])
              else
                (case MkdirAll sh dir of
                   Some err \<Rightarrow> (Some err, [Prompt message])
                 | None \<Rightarrow>
                     (case WriteFile sh resultFilePath (createTemplateContent sh) of
                        Some err \<Rightarrow>
                          (Some (ErrorString (''Failed to save migration file ''
                                   @ Quote sh resultFilePath @ newline)),
                           [Prompt message])
                      | None \<Rightarrow>
                          (None,
                           [Prompt message,
                            Plain (''Successfully created file ''
                                     @ Quote sh resultFilePath @ newline)]))))))"

definition Run ::
  "shell \<Rightarrow> 's Runner \<Rightarrow> (string \<Rightarrow> int) \<Rightarrow> string list \<Rightarrow> 's database
     \<Rightarrow> (error option \<times> printed list) \<times> 's database" where
  "Run sh r now args d =
     (let cmd = (if length args > 0 then args ! 0 else ''up'') in
      if cmd = ''up'' then run_up r now d
      else if cmd = ''down'' then
        (let toRevertCount =
               (if length args > 1 then
                  (let c = ToInt sh (args ! 1) in
                   if c < 0 then int (length (Items (migrationsList r))) else c)
                else 1)
         in run_down sh r toRevertCount d)
      else if cmd = ''create'' then (run_create sh args, d)
      else ((Some (ErrorString (''Unsupported command: '' @ Quote sh cmd @ newline)), []), d))"

subsection \<open>Vocabulary of the properties\<close>

text \<open>A connection on which no statement fails for outside reasons.\<close>

definition reliable :: "conn \<Rightarrow> bool" where
  "reliable c = (\<forall>q. faults c q = None)"

text \<open>An operation of a unit that never fails, and one that leaves a table as it is.\<close>

definition succeeds :: "('s database \<Rightarrow> error + 's database) \<Rightarrow> bool" where
  "succeeds op = (\<forall>tx. \<exists>tx1. op tx = Inr tx1)"

definition keeps_table :: "string \<Rightarrow> ('s database \<Rightarrow> error + 's database) \<Rightarrow> bool" where
  "keeps_table name op = (\<forall>tx tx1. op tx = Inr tx1 \<longrightarrow> tables tx1 name = tables tx name)"

text \<open>The identifiers in the ledger of a runner, one per row.\<close>

definition ledger_files :: "'s Runner \<Rightarrow> 's database \<Rightarrow> string list" where
  "ledger_files r d = (case tables d (tableName r) of None \<Rightarrow> [] | Some rows \<Rightarrow> map fst rows)"

text \<open>The identifiers of a list that are not among \<open>seen\<close>, each once, in the order of
  their first occurrence.\<close>

fun pending :: "string list \<Rightarrow> 's Migration list \<Rightarrow> string list" where
  "pending seen [] = []"
| "pending seen (m # ms) =
     (if file m \<in> set seen then pending seen ms else file m # pending (seen @ [file m]) ms)"

text \<open>The list without the entries whose identifier is among \<open>seen\<close> or occurred earlier
  in the list.\<close>

fun first_occurrences :: "string list \<Rightarrow> 's Migration list \<Rightarrow> 's Migration list" where
  "first_occurrences seen [] = []"
| "first_occurrences seen (m # ms) =
     (if file m \<in> set seen then first_occurrences seen ms
      else m # first_occurrences (seen @ [file m]) ms)"

text \<open>The units of the runner that the ledger of \<open>d\<close> holds as applied.\<close>

definition applied_units :: "'s Runner \<Rightarrow> 's database \<Rightarrow> 's Migration list" where
  "applied_units r d =
     filter (\<lambda>m. isMigrationApplied r d (file m)) (Items (migrationsList r))"

text \<open>What applying a sequence of units does to a store: for each unit in turn, its
  forward operation is run on the store and then a row with its identifier and the reading
  of the clock is added to the ledger table. There is no result when an operation fails
  or the table is missing.\<close>

fun apply_units ::
  "'s Runner \<Rightarrow> (string \<Rightarrow> int) \<Rightarrow> 's Migration list \<Rightarrow> 's database \<Rightarrow> 's database option" where
  "apply_units r now [] tx = Some tx"
| "apply_units r now (m # ms) tx =
     (case up m tx of
        Inl err \<Rightarrow> None
      | Inr tx1 \<Rightarrow>
          (case tables tx1 (tableName r) of
             None \<Rightarrow> None
           | Some rows \<Rightarrow>
               apply_units r now ms
                 (tx1\<lparr>tables := (tables tx1)(tableName r \<mapsto> rows @ [(file m, now (file m))])\<rparr>)))"

text \<open>What reverting a sequence of units does to a store: for each unit in turn, its
  backward operation is run on the store and then the rows of its identifier are removed
  from the ledger table. There is no result when an operation fails or the table is
  missing.\<close>

fun revert_units :: "'s Runner \<Rightarrow> 's Migration list \<Rightarrow> 's database \<Rightarrow> 's database option" where
  "revert_units r [] tx = Some tx"
| "revert_units r (m # ms) tx =
     (case down m tx of
        Inl err \<Rightarrow> None
      | Inr tx1 \<Rightarrow>
          (case tables tx1 (tableName r) of
             None \<Rightarrow> None
           | Some rows \<Rightarrow>
               revert_units r ms
                 (tx1\<lparr>tables := (tables tx1)(tableName r \<mapsto> filter (\<lambda>row. fst row \<noteq> file m) rows)\<rparr>)))"

subsection \<open>Concrete units and stores\<close>

text \<open>A unit whose operations write a line to a journal kept in \<open>user_data\<close>, a unit whose
  forward operation fails, a connection without faults, one whose existence query fails,
  one that refuses to create tables, a store whose ledger holds the given identifiers, a
  store without any table, and a shell whose user confirms every prompt.\<close>

definition unit_ok :: "string \<Rightarrow> string list Migration" where
  "unit_ok f =
     \<lparr>file = f,
      up = (\<lambda>tx. Inr (tx\<lparr>user_data := user_data tx @ [''up '' @ f]\<rparr>)),
      down = (\<lambda>tx. Inr (tx\<lparr>user_data := user_data tx @ [''down '' @ f]\<rparr>))\<rparr>"

definition unit_failing :: "string \<Rightarrow> string list Migration" where
  "unit_failing f =
     \<lparr>file = f,
      up = (\<lambda>tx. Inl (ErrorString ''syntax error'')),
      down = (\<lambda>tx. Inr (tx\<lparr>user_data := user_data tx @ [''down '' @ f]\<rparr>))\<rparr>"

definition sound_conn :: conn where
  "sound_conn = \<lparr>faults = (\<lambda>q. None)\<rparr>"

definition blind_conn :: conn where
  "blind_conn =
     \<lparr>faults = (\<lambda>q. case q of
                       SelectCount name f \<Rightarrow> Some (ErrorString ''connection lost'')
                     | _ \<Rightarrow> None)\<rparr>"

definition denied_conn :: conn where
  "denied_conn =
     \<lparr>faults = (\<lambda>q. case q of
                       CreateTableIfNotExists name \<Rightarrow>
                         Some (ErrorString ''attempt to write a readonly database'')
                     | _ \<Rightarrow> None)\<rparr>"

definition empty_store :: "string list database" where
  "empty_store = \<lparr>tables = Map.empty, user_data = [], ddl_log = []\<rparr>"

definition confirming_shell :: shell where
  "confirming_shell =
     \<lparr>ToInt = (\<lambda>s. if s = ''-1'' then - 1 else if s = ''2'' then 2 else 0),
      AskOne = (\<lambda>message. True),
      Getwd = Inr ''/app'',
      Join = (\<lambda>dir name. dir @ ''/'' @ name),
      Unix = 1700000000,
      Snakecase = (\<lambda>s. s),
      MkdirAll = (\<lambda>dir. None),
      WriteFile = (\<lambda>name content. None),
      Quote = (\<lambda>s. [CHR 0x22] @ s @ [CHR 0x22]),
      createTemplateContent = ''package migrations''\<rparr>"

definition store_with :: "string list \<Rightarrow> string list database" where
  "store_with fs =
     \<lparr>tables = [''_migrations'' \<mapsto> map (\<lambda>f. (f, 0)) fs], user_data = [], ddl_log = []\<rparr>"

definition runner_of :: "conn \<Rightarrow> string list Migration list \<Rightarrow> string list Runner" where
  "runner_of c l = \<lparr>db = c, migrationsList = l, tableName = ''_migrations''\<rparr>"

section \<open>Properties\<close>

subsection \<open>The ledger queries and the two loops\<close>

lemma count_key:
  "distinct (map fst rows) \<Longrightarrow>
   length (filter (\<lambda>row. fst row = f) rows) = (if f \<in> fst ` set rows then 1 else 0)"
proof (induction rows)
  case Nil
  then show ?case by simp
next
  case (Cons row rows)
  then have "fst row \<notin> fst ` set rows" and "distinct (map fst rows)" by simp_all
  with Cons.IH show ?case by (cases "fst row = f") simp_all
qed

lemma isMigrationApplied_iff:
  assumes "faults (db r) (SelectCount (tableName r) f) = None"
    and "tables tx (tableName r) = Some rows"
    and "distinct (map fst rows)"
  shows "isMigrationApplied r tx f = (f \<in> fst ` set rows)"
proof -
  have "select_count (db r) tx (tableName r) f = Inr (if f \<in> fst ` set rows then 1 else 0)"
    unfolding select_count_def using assms(1,2) count_key [OF assms(3), of f] by simp
  then show ?thesis
    by (simp add: isMigrationApplied_def scan_bool_def)
qed

lemma pending_cong: "set seen = set seen' \<Longrightarrow> pending seen ms = pending seen' ms"
proof (induction ms arbitrary: seen seen')
  case Nil
  show ?case by simp
next
  case (Cons m ms)
  have "set (seen @ [file m]) = set (seen' @ [file m])" using Cons.prems by simp
  then have "pending (seen @ [file m]) ms = pending (seen' @ [file m]) ms" by (rule Cons.IH)
  moreover have "pending seen ms = pending seen' ms" using Cons.prems by (rule Cons.IH)
  ultimately show ?case using Cons.prems by simp
qed

lemma set_pending: "set (pending seen ms) = file ` set ms - set seen"
  by (induction ms arbitrary: seen) auto

lemma distinct_pending: "distinct (pending seen ms)"
  by (induction ms arbitrary: seen) (auto simp: set_pending)

lemma pending_distinct_list:
  "distinct (map file ms) \<Longrightarrow> pending seen ms = filter (\<lambda>f. f \<notin> set seen) (map file ms)"
proof (induction ms arbitrary: seen)
  case Nil
  then show ?case by simp
next
  case (Cons m ms)
  have "filter (\<lambda>f. f \<notin> set (seen @ [file m])) (map file ms) = filter (\<lambda>f. f \<notin> set seen) (map file ms)"
  proof (rule filter_cong [OF refl])
    fix f assume "f \<in> set (map file ms)"
    then have "f \<noteq> file m" using Cons.prems by (auto simp: image_iff)
    then show "(f \<notin> set (seen @ [file m])) = (f \<notin> set seen)" by simp
  qed
  with Cons show ?case by simp
qed

lemma up_loop_ok:
  assumes "reliable (db r)"
    and "\<forall>m\<in>set ms. succeeds (up m) \<and> keeps_table (tableName r) (up m)"
    and "tables tx (tableName r) = Some rows"
    and "distinct (map fst rows)"
  shows "\<exists>tx1. up_loop r now ms acc tx = Inr (acc @ pending (map fst rows) ms, tx1) \<and>
           apply_units r now (first_occurrences (map fst rows) ms) tx = Some tx1 \<and>
           tables tx1 (tableName r) =
             Some (rows @ map (\<lambda>f. (f, now f)) (pending (map fst rows) ms))"
  using assms
proof (induction ms arbitrary: acc tx rows)
  case Nil
  then show ?case by simp
next
  case (Cons m ms)
  have nf: "\<And>q. faults (db r) q = None" using Cons.prems(1) by (simp add: reliable_def)
  have app: "isMigrationApplied r tx (file m) = (file m \<in> fst ` set rows)"
    using isMigrationApplied_iff [OF nf Cons.prems(3,4)] .
  show ?case
  proof (cases "file m \<in> fst ` set rows")
    case True
    then show ?thesis using Cons.IH [OF Cons.prems(1) _ Cons.prems(3,4), of acc] Cons.prems(2) app
      by simp
  next
    case False
    have "succeeds (up m)" using Cons.prems(2) by simp
    then obtain tx1 where u: "up m tx = Inr tx1" unfolding succeeds_def by blast
    then have t1: "tables tx1 (tableName r) = Some rows"
      using Cons.prems(2,3) by (auto simp: keeps_table_def)
    define tx2 where "tx2 = tx1\<lparr>tables := (tables tx1)(tableName r \<mapsto> rows @ [(file m, now (file m))])\<rparr>"
    have s: "saveAppliedMigration r now tx1 (file m) = Inr tx2"
      using nf t1 False by (simp add: saveAppliedMigration_def insert_row_def tx2_def)
    have t2: "tables tx2 (tableName r) = Some (rows @ [(file m, now (file m))])"
      by (simp add: tx2_def)
    have d2: "distinct (map fst (rows @ [(file m, now (file m))]))"
      using Cons.prems(4) False by auto
    have ops': "\<forall>m\<in>set ms. succeeds (up m) \<and> keeps_table (tableName r) (up m)"
      using Cons.prems(2) by simp
    from Cons.IH [OF Cons.prems(1) ops' t2 d2, of "acc @ [file m]"]
    obtain tx3 where run: "up_loop r now ms (acc @ [file m]) tx2 =
        Inr ((acc @ [file m]) @ pending (map fst (rows @ [(file m, now (file m))])) ms, tx3)"
      and ap: "apply_units r now (first_occurrences (map fst (rows @ [(file m, now (file m))])) ms) tx2
                 = Some tx3"
      and t3: "tables tx3 (tableName r) = Some ((rows @ [(file m, now (file m))]) @
             map (\<lambda>f. (f, now f)) (pending (map fst (rows @ [(file m, now (file m))])) ms))"
      by blast
    have run1: "up_loop r now (m # ms) acc tx = Inr (acc @ pending (map fst rows) (m # ms), tx3)"
      using False app u s run by simp
    have ap1: "apply_units r now (first_occurrences (map fst rows) (m # ms)) tx = Some tx3"
      using False u t1 ap by (simp add: tx2_def)
    have t31: "tables tx3 (tableName r) =
                 Some (rows @ map (\<lambda>f. (f, now f)) (pending (map fst rows) (m # ms)))"
      using False t3 by simp
    from run1 ap1 t31 show ?thesis by blast
  qed
qed

lemma reliableD: "reliable c \<Longrightarrow> faults c q = None"
  by (simp add: reliable_def)

lemma Up_ok:
  assumes "reliable (db r)"
    and "\<forall>m\<in>set (migrationsList r). succeeds (up m) \<and> keeps_table (tableName r) (up m)"
    and "tables d (tableName r) = Some rows"
    and "distinct (map fst rows)"
  shows "\<exists>d1. Up r now d = (Inr (pending (map fst rows) (migrationsList r)), d1) \<and>
           apply_units r now (first_occurrences (map fst rows) (migrationsList r)) d = Some d1 \<and>
           tables d1 (tableName r) =
             Some (rows @ map (\<lambda>f. (f, now f)) (pending (map fst rows) (migrationsList r)))"
proof -
  from up_loop_ok [OF assms, of now "[]"]
  obtain tx1 where "up_loop r now (migrationsList r) [] d =
        Inr (pending (map fst rows) (migrationsList r), tx1)"
    and "apply_units r now (first_occurrences (map fst rows) (migrationsList r)) d = Some tx1"
    and "tables tx1 (tableName r) =
        Some (rows @ map (\<lambda>f. (f, now f)) (pending (map fst rows) (migrationsList r)))"
    by auto
  then show ?thesis
    using reliableD [OF assms(1)] by (simp add: Up_def Transactional_def Items_def)
qed

lemma pending_empty_iff: "(pending seen ms = []) = (file ` set ms \<subseteq> set seen)"
  using set_pending [of seen ms] by (metis Diff_eq_empty_iff set_empty)

lemma up_loop_append:
  "up_loop r now (xs @ ys) acc tx =
     (case up_loop r now xs acc tx of
        Inl err \<Rightarrow> Inl err
      | Inr (acc1, tx1) \<Rightarrow> up_loop r now ys acc1 tx1)"
  by (induction xs arbitrary: acc tx) (simp_all split: sum.splits)

lemma down_loop_stop:
  "toRevertCount \<le> 0 \<Longrightarrow> down_loop r toRevertCount k 0 acc tx = Inr (acc, tx)"
  by (induction k) (simp_all add: Let_def)

lemma Down_stop:
  assumes "toRevertCount \<le> 0" and "faults (db r) Begin = None" and "faults (db r) Commit = None"
  shows "Down r toRevertCount d = (Inr [], d)"
  using assms by (simp add: Down_def Transactional_def down_loop_stop)

lemma fst_set_filter_ne:
  "fst ` set (filter (\<lambda>row. fst row \<noteq> f) rows) = fst ` set rows - {f}"
  by (induction rows) auto

lemma down_loop_all:
  assumes rel: "reliable (db r)"
    and ops: "\<forall>m\<in>set (migrationsList r). succeeds (down m) \<and> keeps_table (tableName r) (down m)"
    and pos: "0 < toRevertCount"
    and dist: "distinct (map file (migrationsList r))"
    and k: "k \<le> length (migrationsList r)"
    and tab: "tables tx (tableName r) = Some rows"
    and key: "distinct (map fst rows)"
  shows "\<exists>tx1. down_loop r toRevertCount k 0 acc tx =
             Inr (acc @ rev (filter (\<lambda>f. f \<in> fst ` set rows) (map file (take k (migrationsList r)))), tx1) \<and>
           revert_units r
             (rev (filter (\<lambda>m. file m \<in> fst ` set rows) (take k (migrationsList r)))) tx = Some tx1 \<and>
           tables tx1 (tableName r) =
             Some (filter (\<lambda>row. fst row \<notin> file ` set (take k (migrationsList r))) rows)"
  using k tab key
proof (induction k arbitrary: acc tx rows)
  case 0
  then show ?case by simp
next
  case (Suc i)
  define l where "l = migrationsList r"
  define m where "m = l ! i"
  have i: "i < length l" and i': "i \<le> length (migrationsList r)"
    using Suc.prems(1) by (simp_all add: l_def)
  have tk: "take (Suc i) l = take i l @ [m]"
    using i by (simp add: take_Suc_conv_app_nth m_def)
  have m_in: "m \<in> set (migrationsList r)" using i by (simp add: m_def l_def)
  have "distinct (take (Suc i) (map file l))"
    using dist unfolding l_def by (rule distinct_take)
  then have "distinct (map file (take (Suc i) l))"
    by (simp only: take_map)
  then have fresh: "file m \<notin> file ` set (take i l)" by (simp add: tk)
  have nf: "\<And>q. faults (db r) q = None" using rel by (rule reliableD)
  have app: "isMigrationApplied r tx (file m) = (file m \<in> fst ` set rows)"
    using isMigrationApplied_iff [OF nf Suc.prems(2,3)] .
  show ?case
  proof (cases "file m \<in> fst ` set rows")
    case False
    from Suc.IH [OF i' Suc.prems(2,3), of acc]
    obtain tx1 where run: "down_loop r toRevertCount i 0 acc tx =
          Inr (acc @ rev (filter (\<lambda>f. f \<in> fst ` set rows) (map file (take i l))), tx1)"
      and rv: "revert_units r (rev (filter (\<lambda>m. file m \<in> fst ` set rows) (take i l))) tx = Some tx1"
      and t: "tables tx1 (tableName r) = Some (filter (\<lambda>row. fst row \<notin> file ` set (take i l)) rows)"
      by (auto simp: l_def)
    have "filter (\<lambda>row. fst row \<notin> file ` set (take (Suc i) l)) rows =
          filter (\<lambda>row. fst row \<notin> file ` set (take i l)) rows"
    proof (rule filter_cong [OF refl])
      fix row assume "row \<in> set rows"
      then have "fst row \<noteq> file m" using False by (auto simp: image_iff)
      then show "(fst row \<notin> file ` set (take (Suc i) l)) = (fst row \<notin> file ` set (take i l))"
        by (simp add: tk)
    qed
    then show ?thesis
      using False app run rv t unfolding l_def [symmetric]
      by (simp add: Item_def l_def [symmetric] m_def [symmetric] tk)
  next
    case True
    have "succeeds (down m)" and kt: "keeps_table (tableName r) (down m)"
      using ops m_in by simp_all
    then obtain tx1 where dn: "down m tx = Inr tx1" unfolding succeeds_def by blast
    have t1: "tables tx1 (tableName r) = Some rows"
      using kt dn Suc.prems(2) by (simp add: keeps_table_def)
    define rows2 where "rows2 = filter (\<lambda>row. fst row \<noteq> file m) rows"
    define tx2 where "tx2 = tx1\<lparr>tables := (tables tx1)(tableName r \<mapsto> rows2)\<rparr>"
    have sv: "saveRevertedMigration r tx1 (file m) = Inr tx2"
      using nf t1 by (simp add: saveRevertedMigration_def delete_rows_def tx2_def rows2_def)
    have t2: "tables tx2 (tableName r) = Some rows2" by (simp add: tx2_def)
    have d2: "distinct (map fst rows2)"
      using Suc.prems(3) by (simp add: rows2_def distinct_map_filter)
    from Suc.IH [OF i' t2 d2, of "acc @ [file m]"]
    obtain tx3 where run: "down_loop r toRevertCount i 0 (acc @ [file m]) tx2 =
          Inr ((acc @ [file m]) @ rev (filter (\<lambda>f. f \<in> fst ` set rows2) (map file (take i l))), tx3)"
      and rv: "revert_units r (rev (filter (\<lambda>m. file m \<in> fst ` set rows2) (take i l))) tx2 = Some tx3"
      and t: "tables tx3 (tableName r) = Some (filter (\<lambda>row. fst row \<notin> file ` set (take i l)) rows2)"
      by (auto simp: l_def)
    have mem2: "fst ` set rows2 = fst ` set rows - {file m}"
      unfolding rows2_def by (rule fst_set_filter_ne)
    have g1: "filter (\<lambda>m. file m \<in> fst ` set rows2) (take i l) =
              filter (\<lambda>m. file m \<in> fst ` set rows) (take i l)"
    proof (rule filter_cong [OF refl])
      fix x assume "x \<in> set (take i l)"
      then have "file x \<noteq> file m" using fresh by (auto simp: image_iff)
      then show "(file x \<in> fst ` set rows2) = (file x \<in> fst ` set rows)"
        unfolding mem2 by simp
    qed
    have rv1: "revert_units r (rev (filter (\<lambda>m. file m \<in> fst ` set rows) (take (Suc i) l))) tx = Some tx3"
      using True dn t1 rv unfolding g1 by (simp add: tk tx2_def rows2_def)
    have f1: "filter (\<lambda>f. f \<in> fst ` set rows2) (map file (take i l)) =
              filter (\<lambda>f. f \<in> fst ` set rows) (map file (take i l))"
    proof (rule filter_cong [OF refl])
      fix f assume "f \<in> set (map file (take i l))"
      then have "f \<noteq> file m" using fresh by (auto simp: image_iff)
      moreover have "fst ` set rows2 = fst ` set rows - {file m}"
        unfolding rows2_def by (rule fst_set_filter_ne)
      ultimately show "(f \<in> fst ` set rows2) = (f \<in> fst ` set rows)"
        by simp
    qed
    have f2: "filter (\<lambda>row. fst row \<notin> file ` set (take i l)) rows2 =
              filter (\<lambda>row. fst row \<notin> file ` set (take (Suc i) l)) rows"
      by (simp add: rows2_def tk conj_commute)
    have run1: "down_loop r toRevertCount (Suc i) 0 acc tx =
          Inr (acc @ rev (filter (\<lambda>f. f \<in> fst ` set rows) (map file (take (Suc i) l))), tx3)"
      using True app dn sv run pos
      by (simp add: Item_def l_def [symmetric] m_def [symmetric] tk f1)
    have t3: "tables tx3 (tableName r) = Some (filter (\<lambda>row. fst row \<notin> file ` set (take (Suc i) l)) rows)"
      using t unfolding f2 .
    show ?thesis
      unfolding l_def [symmetric] using run1 rv1 t3 by blast
  qed
qed

lemma applied_units_files:
  assumes "reliable (db r)"
    and "tables d (tableName r) = Some rows"
    and "distinct (map fst rows)"
  shows "map file (applied_units r d) =
           filter (\<lambda>f. f \<in> fst ` set rows) (map file (migrationsList r))"
proof -
  have "\<And>f. isMigrationApplied r d f = (f \<in> fst ` set rows)"
    using isMigrationApplied_iff [OF reliableD [OF assms(1)] assms(2,3)] .
  then show ?thesis
    by (simp add: applied_units_def Items_def filter_map comp_def)
qed

lemma Down_all:
  assumes rel: "reliable (db r)"
    and ops: "\<forall>m\<in>set (migrationsList r). succeeds (down m) \<and> keeps_table (tableName r) (down m)"
    and dist: "distinct (map file (migrationsList r))"
    and tab: "tables d (tableName r) = Some rows"
    and key: "distinct (map fst rows)"
    and pos: "0 < toRevertCount"
  shows "\<exists>d1. Down r toRevertCount d = (Inr (rev (map file (applied_units r d))), d1) \<and>
           revert_units r (rev (applied_units r d)) d = Some d1 \<and>
           tables d1 (tableName r) =
             Some (filter (\<lambda>row. fst row \<notin> file ` set (migrationsList r)) rows) \<and>
           applied_units r d1 = []"
proof -
  from down_loop_all [OF rel ops pos dist le_refl tab key, of "[]"]
  obtain d1 where run: "down_loop r toRevertCount (length (migrationsList r)) 0 [] d =
        Inr (rev (filter (\<lambda>f. f \<in> fst ` set rows) (map file (migrationsList r))), d1)"
    and rv0: "revert_units r (rev (filter (\<lambda>m. file m \<in> fst ` set rows) (migrationsList r))) d = Some d1"
    and t: "tables d1 (tableName r) =
        Some (filter (\<lambda>row. fst row \<notin> file ` set (migrationsList r)) rows)"
    by auto
  have "\<And>f. isMigrationApplied r d f = (f \<in> fst ` set rows)"
    using isMigrationApplied_iff [OF reliableD [OF rel] tab key] .
  then have "applied_units r d = filter (\<lambda>m. file m \<in> fst ` set rows) (migrationsList r)"
    by (simp add: applied_units_def Items_def)
  with rv0 have rv: "revert_units r (rev (applied_units r d)) d = Some d1" by simp
  have res: "Down r toRevertCount d = (Inr (rev (map file (applied_units r d))), d1)"
    using run reliableD [OF rel] applied_units_files [OF rel tab key]
    by (simp add: Down_def Transactional_def Items_def)
  have key1: "distinct (map fst (filter (\<lambda>row. fst row \<notin> file ` set (migrationsList r)) rows))"
    using key by (rule distinct_map_filter)
  have "map file (applied_units r d1) = []"
    unfolding applied_units_files [OF rel t key1]
    by (auto simp: filter_empty_conv)
  then have "applied_units r d1 = []" by simp
  with res rv t show ?thesis by blast
qed

subsection \<open>Down with a negative count\<close>

text \<open>
  C2 (as stated): for every ledger state and every \<open>n < 0\<close>, \<open>Down n\<close> reverts all
  applied units and returns their identifiers. The code does not: with the units a and b
  applied, \<open>Down (-1)\<close> returns the empty list and leaves both rows in the ledger.
\<close>

theorem Down_negative_counterexample:
  "Down (runner_of sound_conn [unit_ok ''a'', unit_ok ''b'']) (- 1) (store_with [''a'', ''b''])
     = (Inr [], store_with [''a'', ''b'']) \<and>
   ledger_files (runner_of sound_conn [unit_ok ''a'', unit_ok ''b''])
     (store_with [''a'', ''b'']) = [''a'', ''b'']"
  by (simp add: Down_stop runner_of_def sound_conn_def ledger_files_def store_with_def)

text \<open>
  C2 (amended): for every ledger state and every \<open>n < 0\<close>, \<open>Down n\<close> reverts no unit: on a
  connection that can begin and commit a transaction it returns the empty list without
  error and leaves the store, the ledger included, as it was. (The reading "negative
  means all" is implemented by \<open>Run\<close>, which replaces a negative count before the call.)
\<close>

theorem Down_negative_reverts_nothing:
  assumes "n < 0"
    and "faults (db r) Begin = None"
    and "faults (db r) Commit = None"
  shows "Down r n d = (Inr [], d)"
  using assms by (simp add: Down_stop)

theorem Down_negative_reverts_nothing_witness:
  "(- 3 :: int) < 0 \<and>
   faults (db (runner_of sound_conn [unit_ok ''a''])) Begin = None \<and>
   faults (db (runner_of sound_conn [unit_ok ''a''])) Commit = None \<and>
   Down (runner_of sound_conn [unit_ok ''a'']) (- 3) (store_with [''a''])
     = (Inr [], store_with [''a''])"
  using Down_negative_reverts_nothing
          [of "- 3" "runner_of sound_conn [unit_ok ''a'']" "store_with [''a'']"]
  by (simp add: runner_of_def sound_conn_def)

lemma up_loop_skip:
  "\<forall>m\<in>set ms. isMigrationApplied r tx (file m) \<Longrightarrow> up_loop r now ms acc tx = Inr (acc, tx)"
  by (induction ms) simp_all

lemma Up_ledger:
  assumes rel: "reliable (db r)"
    and ops: "\<forall>m\<in>set (migrationsList r). succeeds (up m) \<and> keeps_table (tableName r) (up m)"
    and tab: "tables d (tableName r) = Some rows"
    and key: "distinct (map fst rows)"
  shows "\<exists>d1 rows1. Up r now d = (Inr (pending (map fst rows) (migrationsList r)), d1) \<and>
           apply_units r now (first_occurrences (map fst rows) (migrationsList r)) d = Some d1 \<and>
           tables d1 (tableName r) = Some rows1 \<and> distinct (map fst rows1) \<and>
           map fst rows1 = map fst rows @ pending (map fst rows) (migrationsList r)"
proof -
  define new where "new = pending (map fst rows) (migrationsList r)"
  from Up_ok [OF assms, of now]
  obtain d1 where run: "Up r now d = (Inr new, d1)"
    and ap: "apply_units r now (first_occurrences (map fst rows) (migrationsList r)) d = Some d1"
    and t: "tables d1 (tableName r) = Some (rows @ map (\<lambda>f. (f, now f)) new)"
    by (auto simp: new_def)
  have m: "map fst (rows @ map (\<lambda>f. (f, now f)) new) = map fst rows @ new"
    by (simp add: comp_def)
  have "set (map fst rows) \<inter> set new = {}"
    unfolding new_def set_pending by auto
  then have "distinct (map fst rows @ new)"
    using key distinct_pending [of "map fst rows" "migrationsList r"]
    by (simp add: new_def)
  then have dk: "distinct (map fst (rows @ map (\<lambda>f. (f, now f)) new))"
    by (simp only: m)
  show ?thesis
    unfolding new_def [symmetric]
    by (intro exI conjI) (rule run, rule ap, rule t, rule dk, rule m)
qed

lemma Up_again:
  assumes rel: "reliable (db r)"
    and tab: "tables d (tableName r) = Some rows"
    and key: "distinct (map fst rows)"
    and all: "file ` set (migrationsList r) \<subseteq> fst ` set rows"
  shows "Up r now d = (Inr [], d)"
proof -
  have "\<forall>m\<in>set (migrationsList r). isMigrationApplied r d (file m)"
    using isMigrationApplied_iff [OF reliableD [OF rel] tab key] all by auto
  then have "up_loop r now (migrationsList r) [] d = Inr ([], d)"
    by (rule up_loop_skip)
  then show ?thesis
    using reliableD [OF rel] by (simp add: Up_def Transactional_def Items_def)
qed

lemma unit_ok_fields [simp]:
  "file (unit_ok f) = f"
  "succeeds (up (unit_ok f))" "succeeds (down (unit_ok f))"
  "keeps_table name (up (unit_ok f))" "keeps_table name (down (unit_ok f))"
  by (simp_all add: unit_ok_def succeeds_def keeps_table_def)

lemma sound_conn_reliable [simp]: "reliable sound_conn" "faults sound_conn q = None"
  by (simp_all add: reliable_def sound_conn_def)

lemma runner_of_fields [simp]:
  "db (runner_of c l) = c" "migrationsList (runner_of c l) = l"
  "tableName (runner_of c l) = ''_migrations''"
  by (simp_all add: runner_of_def)

lemma store_with_table [simp]:
  "tables (store_with fs) ''_migrations'' = Some (map (\<lambda>f. (f, 0)) fs)"
  by (simp add: store_with_def)

lemma applied_units_sound:
  "distinct fs \<Longrightarrow>
   applied_units (runner_of sound_conn l) (store_with fs) = filter (\<lambda>m. file m \<in> set fs) l"
proof -
  assume "distinct fs"
  then have "distinct (map fst (map (\<lambda>f. (f, 0::int)) fs))" by (simp add: comp_def)
  from isMigrationApplied_iff [OF _ _ this, of "runner_of sound_conn l" _ "store_with fs"]
  have "\<And>f. isMigrationApplied (runner_of sound_conn l) (store_with fs) f = (f \<in> set fs)"
    by (simp add: image_comp comp_def)
  then show ?thesis by (simp add: applied_units_def Items_def)
qed

subsection \<open>Down with the count 0 and with a count above the number of applied units\<close>

text \<open>
  C7: \<open>Down 0\<close> reverts nothing and returns an empty list without error, for every ledger
  state (the connection must be able to begin and commit the transaction); and for every
  \<open>n\<close> greater than the number of currently applied units, \<open>Down n\<close> reverts all applied
  units without error: it returns their identifiers, last registered first, and the store
  it leaves is the one obtained from \<open>d\<close> by running, for each applied unit from the last
  registered to the first, its backward operation and then deleting its row from the
  ledger (\<open>revert_units\<close>); in that store no unit of the list is applied, and the rows of
  other identifiers are kept. The second part is stated for a reliable connection,
  backward operations that succeed and do not touch the ledger table, and a list without
  duplicate identifiers.
\<close>

theorem Down_zero_and_beyond:
  "(faults (db r) Begin = None \<and> faults (db r) Commit = None \<longrightarrow> Down r 0 d = (Inr [], d)) \<and>
   (reliable (db r) \<and>
    (\<forall>m\<in>set (migrationsList r). succeeds (down m) \<and> keeps_table (tableName r) (down m)) \<and>
    distinct (map file (migrationsList r)) \<and>
    tables d (tableName r) = Some rows \<and> distinct (map fst rows) \<and>
    int (length (applied_units r d)) < n \<longrightarrow>
    (\<exists>d1. Down r n d = (Inr (rev (map file (applied_units r d))), d1) \<and>
          revert_units r (rev (applied_units r d)) d = Some d1 \<and>
          tables d1 (tableName r) =
            Some (filter (\<lambda>row. fst row \<notin> file ` set (migrationsList r)) rows) \<and>
          applied_units r d1 = []))"
proof (intro conjI impI)
  assume "faults (db r) Begin = None \<and> faults (db r) Commit = None"
  then show "Down r 0 d = (Inr [], d)" by (simp add: Down_stop)
next
  assume h: "reliable (db r) \<and>
    (\<forall>m\<in>set (migrationsList r). succeeds (down m) \<and> keeps_table (tableName r) (down m)) \<and>
    distinct (map file (migrationsList r)) \<and>
    tables d (tableName r) = Some rows \<and> distinct (map fst rows) \<and>
    int (length (applied_units r d)) < n"
  then have "0 < n" by linarith
  with h show "\<exists>d1. Down r n d = (Inr (rev (map file (applied_units r d))), d1) \<and>
          revert_units r (rev (applied_units r d)) d = Some d1 \<and>
          tables d1 (tableName r) =
            Some (filter (\<lambda>row. fst row \<notin> file ` set (migrationsList r)) rows) \<and>
          applied_units r d1 = []"
    by (intro Down_all) simp_all
qed

theorem Down_zero_and_beyond_witness:
  "faults (db (runner_of sound_conn [unit_ok ''a'', unit_ok ''b'', unit_ok ''c''])) Begin = None \<and>
   faults (db (runner_of sound_conn [unit_ok ''a'', unit_ok ''b'', unit_ok ''c''])) Commit = None \<and>
   Down (runner_of sound_conn [unit_ok ''a'', unit_ok ''b'', unit_ok ''c'']) 0
     (store_with [''a'', ''b'']) = (Inr [], store_with [''a'', ''b'']) \<and>
   int (length (applied_units (runner_of sound_conn [unit_ok ''a'', unit_ok ''b'', unit_ok ''c''])
     (store_with [''a'', ''b'']))) < 5 \<and>
   Down (runner_of sound_conn [unit_ok ''a'', unit_ok ''b'', unit_ok ''c'']) 5
     (store_with [''a'', ''b''])
     = (Inr [''b'', ''a''],
        \<lparr>tables = [''_migrations'' \<mapsto> []], user_data = [''down b'', ''down a''],
         ddl_log = []\<rparr>)"
proof -
  let ?r = "runner_of sound_conn [unit_ok ''a'', unit_ok ''b'', unit_ok ''c'']"
  let ?d = "store_with [''a'', ''b'']"
  have au: "applied_units ?r ?d = [unit_ok ''a'', unit_ok ''b'']"
    by (simp add: applied_units_sound)
  have rv: "revert_units ?r (rev (applied_units ?r ?d)) ?d =
              Some \<lparr>tables = [''_migrations'' \<mapsto> []], user_data = [''down b'', ''down a''],
                    ddl_log = []\<rparr>"
    unfolding au by (simp add: unit_ok_def store_with_def)
  show ?thesis
    using Down_zero_and_beyond [of ?r ?d "[(''a'', 0), (''b'', 0)]" 5]
    unfolding rv by (auto simp: au)
qed

lemma map_file_first_occurrences: "map file (first_occurrences seen ms) = pending seen ms"
  by (induction ms arbitrary: seen) simp_all

lemma first_occurrences_fresh:
  "distinct (map file ms) \<Longrightarrow> file ` set ms \<inter> set seen = {} \<Longrightarrow> first_occurrences seen ms = ms"
proof (induction ms arbitrary: seen)
  case Nil
  show ?case by simp
next
  case (Cons m ms)
  have "file m \<notin> file ` set ms" using Cons.prems(1) by simp
  then have "file ` set ms \<inter> set (seen @ [file m]) = {}" using Cons.prems(2) by auto
  moreover have "distinct (map file ms)" using Cons.prems(1) by simp
  ultimately have "first_occurrences (seen @ [file m]) ms = ms" by (intro Cons.IH)
  moreover have "file m \<notin> set seen" using Cons.prems(2) by auto
  ultimately show ?case by simp
qed

lemma applied_units_filter:
  assumes "reliable (db r)"
    and "tables d (tableName r) = Some rows"
    and "distinct (map fst rows)"
  shows "applied_units r d = filter (\<lambda>m. file m \<in> fst ` set rows) (migrationsList r)"
proof -
  have "\<And>f. isMigrationApplied r d f = (f \<in> fst ` set rows)"
    using isMigrationApplied_iff [OF reliableD [OF assms(1)] assms(2,3)] .
  then show ?thesis by (simp add: applied_units_def Items_def)
qed

lemma pending_fresh:
  assumes "distinct (map file ms)" and "file ` set ms \<inter> set seen = {}"
  shows "pending seen ms = map file ms"
  using first_occurrences_fresh [OF assms] map_file_first_occurrences [of seen ms] by simp

lemma Up_then_Down:
  assumes rel: "reliable (db r)"
    and ups: "\<forall>m\<in>set (migrationsList r). succeeds (up m) \<and> keeps_table (tableName r) (up m)"
    and downs: "\<forall>m\<in>set (migrationsList r). succeeds (down m) \<and> keeps_table (tableName r) (down m)"
    and dist: "distinct (map file (migrationsList r))"
    and tab: "tables d (tableName r) = Some rows"
    and key: "distinct (map fst rows)"
    and none: "file ` set (migrationsList r) \<inter> fst ` set rows = {}"
    and pos: "0 < n"
  shows "\<exists>d1 d2. Up r now d = (Inr (map file (migrationsList r)), d1) \<and>
           apply_units r now (migrationsList r) d = Some d1 \<and>
           Down r n d1 = (Inr (rev (map file (migrationsList r))), d2) \<and>
           revert_units r (rev (migrationsList r)) d1 = Some d2"
proof -
  have none': "file ` set (migrationsList r) \<inter> set (map fst rows) = {}"
    using none by simp
  have pend: "pending (map fst rows) (migrationsList r) = map file (migrationsList r)"
    using dist none' by (rule pending_fresh)
  have fo: "first_occurrences (map fst rows) (migrationsList r) = migrationsList r"
    using dist none' by (rule first_occurrences_fresh)
  from Up_ledger [OF rel ups tab key, of now]
  obtain d1 rows1 where run: "Up r now d = (Inr (map file (migrationsList r)), d1)"
    and ap: "apply_units r now (migrationsList r) d = Some d1"
    and t1: "tables d1 (tableName r) = Some rows1"
    and k1: "distinct (map fst rows1)"
    and m1: "map fst rows1 = map fst rows @ map file (migrationsList r)"
    unfolding pend fo by blast
  have "set (map fst rows1) = set (map fst rows @ map file (migrationsList r))"
    by (simp only: m1)
  then have s1: "fst ` set rows1 = fst ` set rows \<union> file ` set (migrationsList r)"
    by simp
  have au: "applied_units r d1 = migrationsList r"
    unfolding applied_units_filter [OF rel t1 k1] s1 by (simp add: filter_id_conv)
  from Down_all [OF rel downs dist t1 k1 pos]
  obtain d2 where "Down r n d1 = (Inr (rev (map file (applied_units r d1))), d2)"
    and "revert_units r (rev (applied_units r d1)) d1 = Some d2"
    by blast
  then have "Down r n d1 = (Inr (rev (map file (migrationsList r))), d2)"
    and "revert_units r (rev (migrationsList r)) d1 = Some d2"
    unfolding au by simp_all
  with run ap show ?thesis by blast
qed

subsection \<open>The limit of Down\<close>

text \<open>
  C1: for \<open>0 < n < k\<close>, \<open>Down n\<close> should revert exactly the \<open>n\<close> most recently applied of
  \<open>k\<close> applied units and stop once \<open>n\<close> units have been reverted. The code never advances
  \<open>totalReverted\<close>, so the limit \<^verbatim>\<open>toRevertCount-totalReverted <= 0\<close> is not reached for
  a positive \<open>n\<close>: with the five units a to e applied, \<open>Down 2\<close> runs the backward
  operation of all five, empties the ledger and returns e, d, c, b, a.
\<close>

theorem Down_two_of_five_reverts_all:
  "Down (runner_of sound_conn
          [unit_ok ''a'', unit_ok ''b'', unit_ok ''c'', unit_ok ''d'', unit_ok ''e''])
     2 (store_with [''a'', ''b'', ''c'', ''d'', ''e''])
   = (Inr [''e'', ''d'', ''c'', ''b'', ''a''],
      \<lparr>tables = [''_migrations'' \<mapsto> []],
       user_data = [''down e'', ''down d'', ''down c'', ''down b'', ''down a''],
       ddl_log = []\<rparr>)"
proof -
  let ?r = "runner_of sound_conn
              [unit_ok ''a'', unit_ok ''b'', unit_ok ''c'', unit_ok ''d'', unit_ok ''e'']"
  let ?d = "store_with [''a'', ''b'', ''c'', ''d'', ''e'']"
  have au: "applied_units ?r ?d =
              [unit_ok ''a'', unit_ok ''b'', unit_ok ''c'', unit_ok ''d'', unit_ok ''e'']"
    by (simp add: applied_units_sound)
  have rv: "revert_units ?r (rev (applied_units ?r ?d)) ?d =
              Some \<lparr>tables = [''_migrations'' \<mapsto> []],
                    user_data = [''down e'', ''down d'', ''down c'', ''down b'', ''down a''],
                    ddl_log = []\<rparr>"
    unfolding au by (simp add: unit_ok_def store_with_def)
  have "\<exists>d1. Down ?r 2 ?d = (Inr (rev (map file (applied_units ?r ?d))), d1) \<and>
          revert_units ?r (rev (applied_units ?r ?d)) ?d = Some d1 \<and>
          tables d1 (tableName ?r) =
            Some (filter (\<lambda>row. fst row \<notin> file ` set (migrationsList ?r))
                   (map (\<lambda>f. (f, 0)) [''a'', ''b'', ''c'', ''d'', ''e''])) \<and>
          applied_units ?r d1 = []"
    by (rule Down_all) simp_all
  then show ?thesis
    unfolding rv by (auto simp: au)
qed

subsection \<open>The order of application and of reversal\<close>

text \<open>
  C4 (as stated): with the units a, b, c registered in that order and none applied, \<open>Up\<close>
  applies a, b, c and returns that list, and \<open>Down (-1)\<close> afterwards reverts c, b, a and
  returns that list. The second half fails: after \<open>Up\<close> has applied the three units,
  \<open>Down (-1)\<close> returns the empty list and leaves the store as \<open>Up\<close> left it.
\<close>

theorem Up_then_Down_negative_counterexample:
  "Up (runner_of sound_conn [unit_ok ''a'', unit_ok ''b'', unit_ok ''c'']) (\<lambda>f. 1) (store_with [])
     = (Inr [''a'', ''b'', ''c''],
        \<lparr>tables = [''_migrations'' \<mapsto> [(''a'', 1), (''b'', 1), (''c'', 1)]],
         user_data = [''up a'', ''up b'', ''up c''], ddl_log = []\<rparr>) \<and>
   Down (runner_of sound_conn [unit_ok ''a'', unit_ok ''b'', unit_ok ''c'']) (- 1)
        \<lparr>tables = [''_migrations'' \<mapsto> [(''a'', 1), (''b'', 1), (''c'', 1)]],
         user_data = [''up a'', ''up b'', ''up c''], ddl_log = []\<rparr>
     = (Inr [],
        \<lparr>tables = [''_migrations'' \<mapsto> [(''a'', 1), (''b'', 1), (''c'', 1)]],
         user_data = [''up a'', ''up b'', ''up c''], ddl_log = []\<rparr>)"
proof -
  let ?r = "runner_of sound_conn [unit_ok ''a'', unit_ok ''b'', unit_ok ''c'']"
  let ?d1 = "\<lparr>tables = [''_migrations'' \<mapsto> [(''a'', 1), (''b'', 1), (''c'', 1)]],
              user_data = [''up a'', ''up b'', ''up c''], ddl_log = []\<rparr> :: string list database"
  have ap: "apply_units ?r (\<lambda>f. 1) (migrationsList ?r) (store_with []) = Some ?d1"
    by (simp add: unit_ok_def store_with_def)
  have "\<exists>d1 d2. Up ?r (\<lambda>f. 1) (store_with []) = (Inr (map file (migrationsList ?r)), d1) \<and>
          apply_units ?r (\<lambda>f. 1) (migrationsList ?r) (store_with []) = Some d1 \<and>
          Down ?r 1 d1 = (Inr (rev (map file (migrationsList ?r))), d2) \<and>
          revert_units ?r (rev (migrationsList ?r)) d1 = Some d2"
    by (rule Up_then_Down [where rows = "[]"]) simp_all
  then have "Up ?r (\<lambda>f. 1) (store_with []) = (Inr [''a'', ''b'', ''c''], ?d1)"
    unfolding ap by auto
  then show ?thesis by (simp add: Down_stop)
qed

text \<open>
  C4 (amended): for units a, b, c with pairwise different identifiers, registered in that
  order and none applied, \<open>Up\<close> applies them in forward registration order (the store it
  leaves is the result of running the forward operation of a, of b and of c in this order,
  each followed by the insertion of its ledger row) and returns a, b, c; afterwards
  \<open>Down n\<close> with \<open>n \<ge> 3\<close> reverts them in reverse registration order (the backward
  operation of c, of b and of a in this order, each followed by the deletion of its ledger
  row) and returns c, b, a, while \<open>Down n\<close> with \<open>n < 0\<close>, and so \<open>Down (-1)\<close>, reverts
  nothing and returns the empty list. (Reliable connection, operations that succeed and
  leave the ledger table alone.)
\<close>

theorem Up_then_Down_order:
  assumes "migrationsList r = [a, b, c]"
    and "reliable (db r)"
    and "\<forall>m\<in>{a, b, c}. succeeds (up m) \<and> keeps_table (tableName r) (up m) \<and>
                       succeeds (down m) \<and> keeps_table (tableName r) (down m)"
    and "distinct [file a, file b, file c]"
    and "tables d (tableName r) = Some rows"
    and "distinct (map fst rows)"
    and "\<forall>m\<in>{a, b, c}. file m \<notin> fst ` set rows"
  shows "\<exists>d1. Up r now d = (Inr [file a, file b, file c], d1) \<and>
           apply_units r now [a, b, c] d = Some d1 \<and>
           (\<forall>n\<ge>3. \<exists>d2. Down r n d1 = (Inr [file c, file b, file a], d2) \<and>
                         revert_units r [c, b, a] d1 = Some d2) \<and>
           (\<forall>n<0. Down r n d1 = (Inr [], d1))"
proof -
  have ups: "\<forall>m\<in>set (migrationsList r). succeeds (up m) \<and> keeps_table (tableName r) (up m)"
    and downs: "\<forall>m\<in>set (migrationsList r). succeeds (down m) \<and> keeps_table (tableName r) (down m)"
    and dist: "distinct (map file (migrationsList r))"
    and none: "file ` set (migrationsList r) \<inter> fst ` set rows = {}"
    using assms(1,3,4,7) by auto
  note both = Up_then_Down [OF assms(2) ups downs dist assms(5,6) none, of _ now]
  from both [of 1] obtain d1 where
    u: "Up r now d = (Inr [file a, file b, file c], d1)"
    and ap: "apply_units r now [a, b, c] d = Some d1"
    unfolding assms(1) by auto
  have dn: "\<exists>d2. Down r n d1 = (Inr [file c, file b, file a], d2) \<and>
                 revert_units r [c, b, a] d1 = Some d2" if "3 \<le> n" for n
  proof -
    have "0 < n" using that by simp
    from both [OF this] show ?thesis unfolding assms(1) using u by auto
  qed
  have ng: "Down r n d1 = (Inr [], d1)" if "n < 0" for n
    using that reliableD [OF assms(2)] by (simp add: Down_stop)
  from u ap dn ng show ?thesis by blast
qed

theorem Up_then_Down_order_witness:
  "migrationsList (runner_of sound_conn [unit_ok ''a'', unit_ok ''b'', unit_ok ''c''])
     = [unit_ok ''a'', unit_ok ''b'', unit_ok ''c''] \<and>
   reliable (db (runner_of sound_conn [unit_ok ''a'', unit_ok ''b'', unit_ok ''c''])) \<and>
   distinct [file (unit_ok ''a''), file (unit_ok ''b''), file (unit_ok ''c'')] \<and>
   tables (store_with [''z'']) ''_migrations'' = Some [(''z'', 0)] \<and>
   Up (runner_of sound_conn [unit_ok ''a'', unit_ok ''b'', unit_ok ''c'']) (\<lambda>f. 7)
      (store_with [''z''])
     = (Inr [''a'', ''b'', ''c''],
        \<lparr>tables = [''_migrations'' \<mapsto> [(''z'', 0), (''a'', 7), (''b'', 7), (''c'', 7)]],
         user_data = [''up a'', ''up b'', ''up c''], ddl_log = []\<rparr>) \<and>
   Down (runner_of sound_conn [unit_ok ''a'', unit_ok ''b'', unit_ok ''c'']) 3
        \<lparr>tables = [''_migrations'' \<mapsto> [(''z'', 0), (''a'', 7), (''b'', 7), (''c'', 7)]],
         user_data = [''up a'', ''up b'', ''up c''], ddl_log = []\<rparr>
     = (Inr [''c'', ''b'', ''a''],
        \<lparr>tables = [''_migrations'' \<mapsto> [(''z'', 0)]],
         user_data = [''up a'', ''up b'', ''up c'', ''down c'', ''down b'', ''down a''],
         ddl_log = []\<rparr>) \<and>
   Down (runner_of sound_conn [unit_ok ''a'', unit_ok ''b'', unit_ok ''c'']) (- 1)
        \<lparr>tables = [''_migrations'' \<mapsto> [(''z'', 0), (''a'', 7), (''b'', 7), (''c'', 7)]],
         user_data = [''up a'', ''up b'', ''up c''], ddl_log = []\<rparr>
     = (Inr [],
        \<lparr>tables = [''_migrations'' \<mapsto> [(''z'', 0), (''a'', 7), (''b'', 7), (''c'', 7)]],
         user_data = [''up a'', ''up b'', ''up c''], ddl_log = []\<rparr>)"
proof -
  let ?r = "runner_of sound_conn [unit_ok ''a'', unit_ok ''b'', unit_ok ''c'']"
  let ?d1 = "\<lparr>tables = [''_migrations'' \<mapsto> [(''z'', 0), (''a'', 7), (''b'', 7), (''c'', 7)]],
              user_data = [''up a'', ''up b'', ''up c''], ddl_log = []\<rparr> :: string list database"
  let ?d2 = "\<lparr>tables = [''_migrations'' \<mapsto> [(''z'', 0)]],
              user_data = [''up a'', ''up b'', ''up c'', ''down c'', ''down b'', ''down a''],
              ddl_log = []\<rparr> :: string list database"
  have ap: "apply_units ?r (\<lambda>f. 7) [unit_ok ''a'', unit_ok ''b'', unit_ok ''c''] (store_with [''z''])
              = Some ?d1"
    by (simp add: unit_ok_def store_with_def)
  have rv: "revert_units ?r [unit_ok ''c'', unit_ok ''b'', unit_ok ''a''] ?d1 = Some ?d2"
    by (simp add: unit_ok_def)
  have "\<exists>d1. Up ?r (\<lambda>f. 7) (store_with [''z''])
                = (Inr [file (unit_ok ''a''), file (unit_ok ''b''), file (unit_ok ''c'')], d1) \<and>
           apply_units ?r (\<lambda>f. 7) [unit_ok ''a'', unit_ok ''b'', unit_ok ''c''] (store_with [''z''])
             = Some d1 \<and>
           (\<forall>n\<ge>3. \<exists>d2. Down ?r n d1
                           = (Inr [file (unit_ok ''c''), file (unit_ok ''b''), file (unit_ok ''a'')], d2) \<and>
                         revert_units ?r [unit_ok ''c'', unit_ok ''b'', unit_ok ''a''] d1 = Some d2) \<and>
           (\<forall>n<0. Down ?r n d1 = (Inr [], d1))"
    by (rule Up_then_Down_order [where rows = "[(''z'', 0)]"]) simp_all
  then have u: "Up ?r (\<lambda>f. 7) (store_with [''z'']) = (Inr [''a'', ''b'', ''c''], ?d1)"
    and dn: "\<forall>n\<ge>3. \<exists>d2. Down ?r n ?d1 = (Inr [''c'', ''b'', ''a''], d2) \<and>
                         revert_units ?r [unit_ok ''c'', unit_ok ''b'', unit_ok ''a''] ?d1 = Some d2"
    and ng: "\<forall>n<0. Down ?r n ?d1 = (Inr [], ?d1)"
    unfolding ap by auto
  from dn have "Down ?r 3 ?d1 = (Inr [''c'', ''b'', ''a''], ?d2)"
    unfolding rv by auto
  moreover from ng have "Down ?r (- 1) ?d1 = (Inr [], ?d1)" by simp
  ultimately show ?thesis using u by simp
qed

lemma count_list_distinct:
  "distinct xs \<Longrightarrow> count_list xs x = (if x \<in> set xs then 1 else 0)"
  by (induction xs) auto

lemma up_loop_inv:
  assumes sel: "\<And>f. faults (db r) (SelectCount (tableName r) f) = None"
    and kt: "\<forall>m\<in>set ms. keeps_table (tableName r) (up m)"
    and tab: "tables tx (tableName r) = Some rows"
    and key: "distinct (map fst rows)"
    and run: "up_loop r now ms acc tx = Inr (res, tx1)"
  shows "res = acc @ pending (map fst rows) ms \<and>
         apply_units r now (first_occurrences (map fst rows) ms) tx = Some tx1 \<and>
         tables tx1 (tableName r) =
           Some (rows @ map (\<lambda>f. (f, now f)) (pending (map fst rows) ms))"
  using kt tab key run
proof (induction ms arbitrary: acc tx rows)
  case Nil
  then show ?case by simp
next
  case (Cons m ms)
  have kt': "\<forall>m\<in>set ms. keeps_table (tableName r) (up m)"
    and ktm: "keeps_table (tableName r) (up m)"
    using Cons.prems(1) by simp_all
  have app: "isMigrationApplied r tx (file m) = (file m \<in> fst ` set rows)"
    using isMigrationApplied_iff [OF sel Cons.prems(2,3)] .
  show ?case
  proof (cases "file m \<in> fst ` set rows")
    case True
    then have "up_loop r now ms acc tx = Inr (res, tx1)"
      using Cons.prems(4) app by simp
    from Cons.IH [OF kt' Cons.prems(2,3) this] True show ?thesis by simp
  next
    case False
    obtain txa where u: "up m tx = Inr txa"
      using Cons.prems(4) False app by (cases "up m tx") simp_all
    have t1: "tables txa (tableName r) = Some rows"
      using ktm u Cons.prems(2) by (simp add: keeps_table_def)
    obtain txb where s: "saveAppliedMigration r now txa (file m) = Inr txb"
      using Cons.prems(4) False app u
      by (cases "saveAppliedMigration r now txa (file m)") simp_all
    have rest: "up_loop r now ms (acc @ [file m]) txb = Inr (res, tx1)"
      using Cons.prems(4) False app u s by simp
    have txb: "txb = txa\<lparr>tables := (tables txa)(tableName r \<mapsto> rows @ [(file m, now (file m))])\<rparr>"
      using s t1 False
      by (auto simp: saveAppliedMigration_def insert_row_def split: option.splits)
    have t2: "tables txb (tableName r) = Some (rows @ [(file m, now (file m))])"
      by (simp add: txb)
    have d2: "distinct (map fst (rows @ [(file m, now (file m))]))"
      using Cons.prems(3) False by auto
    from Cons.IH [OF kt' t2 d2 rest]
    have r1: "res = (acc @ [file m]) @ pending (map fst (rows @ [(file m, now (file m))])) ms"
      and a1: "apply_units r now (first_occurrences (map fst (rows @ [(file m, now (file m))])) ms) txb
                 = Some tx1"
      and t3: "tables tx1 (tableName r) = Some ((rows @ [(file m, now (file m))]) @
             map (\<lambda>f. (f, now f)) (pending (map fst (rows @ [(file m, now (file m))])) ms))"
      by blast+
    have "res = acc @ pending (map fst rows) (m # ms)"
      using r1 False by simp
    moreover have "apply_units r now (first_occurrences (map fst rows) (m # ms)) tx = Some tx1"
      using False u t1 a1 by (simp add: txb)
    moreover have "tables tx1 (tableName r) =
                 Some (rows @ map (\<lambda>f. (f, now f)) (pending (map fst rows) (m # ms)))"
      using False t3 by simp
    ultimately show ?thesis by blast
  qed
qed

lemma Up_error_keeps_store: "Up r now d = (Inl e, d1) \<Longrightarrow> d1 = d"
  by (auto simp: Up_def Transactional_def split: option.splits sum.splits)

lemma Up_Inr_loop:
  "Up r now d = (Inr applied, d1) \<Longrightarrow> up_loop r now (migrationsList r) [] d = Inr (applied, d1)"
  by (auto simp: Up_def Transactional_def Items_def split: option.splits sum.splits)

subsection \<open>Repeating Up\<close>

text \<open>
  C5: \<open>Up\<close> is idempotent. For a fixed migrations list, the first call of \<open>Up\<close> returns the
  pending identifiers, a non-empty list when some unit of the list is not applied, and
  leaves the store obtained by applying the pending units in turn; a second call in
  succession (at any later reading of the clock) returns the empty list and leaves
  that store as it is; and the ledger then holds exactly one row for each unit of the
  list. (Reliable connection, forward operations that succeed and leave the ledger
  table alone, a ledger table that exists and respects its primary key.)
\<close>

theorem Up_twice:
  assumes "reliable (db r)"
    and "\<forall>m\<in>set (migrationsList r). succeeds (up m) \<and> keeps_table (tableName r) (up m)"
    and "tables d (tableName r) = Some rows"
    and "distinct (map fst rows)"
  shows "\<exists>applied d1.
           Up r now d = (Inr applied, d1) \<and>
           applied = pending (map fst rows) (migrationsList r) \<and>
           apply_units r now (first_occurrences (map fst rows) (migrationsList r)) d = Some d1 \<and>
           ((\<exists>m\<in>set (migrationsList r). \<not> isMigrationApplied r d (file m)) \<longrightarrow> applied \<noteq> []) \<and>
           Up r now2 d1 = (Inr [], d1) \<and>
           (\<forall>m\<in>set (migrationsList r). count_list (ledger_files r d1) (file m) = 1)"
proof -
  define new where "new = pending (map fst rows) (migrationsList r)"
  from Up_ledger [OF assms, of now]
  obtain d1 rows1 where run: "Up r now d = (Inr new, d1)"
    and ap: "apply_units r now (first_occurrences (map fst rows) (migrationsList r)) d = Some d1"
    and t1: "tables d1 (tableName r) = Some rows1"
    and k1: "distinct (map fst rows1)"
    and m1: "map fst rows1 = map fst rows @ new"
    unfolding new_def by blast
  have "set (map fst rows1) = set (map fst rows @ new)" by (simp only: m1)
  then have s1: "fst ` set rows1 = fst ` set rows \<union> file ` set (migrationsList r)"
    by (auto simp: new_def set_pending)
  then have all: "file ` set (migrationsList r) \<subseteq> fst ` set rows1" by simp
  have again: "Up r now2 d1 = (Inr [], d1)"
    using assms(1) t1 k1 all by (rule Up_again)
  have ne: "new \<noteq> []" if "\<exists>m\<in>set (migrationsList r). \<not> isMigrationApplied r d (file m)"
  proof -
    from that obtain m where m: "m \<in> set (migrationsList r)" "\<not> isMigrationApplied r d (file m)"
      by blast
    have "file m \<notin> fst ` set rows"
      using m(2) isMigrationApplied_iff [OF reliableD [OF assms(1)] assms(3,4), of "file m"] by simp
    then have "file m \<in> set new" using m(1) by (simp add: new_def set_pending)
    then show ?thesis by auto
  qed
  have cnt: "count_list (ledger_files r d1) (file m) = 1" if "m \<in> set (migrationsList r)" for m
  proof -
    have "file m \<in> set (map fst rows1)" using that all by auto
    then show ?thesis
      using count_list_distinct [OF k1, of "file m"] t1 by (simp add: ledger_files_def)
  qed
  from run ap ne again cnt show ?thesis unfolding new_def by blast
qed

theorem Up_twice_witness:
  "reliable (db (runner_of sound_conn [unit_ok ''a'', unit_ok ''b'', unit_ok ''c''])) \<and>
   tables (store_with [''a'']) ''_migrations'' = Some [(''a'', 0)] \<and>
   distinct (map fst [(''a'', 0 :: int)]) \<and>
   \<not> isMigrationApplied (runner_of sound_conn [unit_ok ''a'', unit_ok ''b'', unit_ok ''c''])
       (store_with [''a'']) ''b'' \<and>
   Up (runner_of sound_conn [unit_ok ''a'', unit_ok ''b'', unit_ok ''c'']) (\<lambda>f. 5)
      (store_with [''a''])
     = (Inr [''b'', ''c''],
        \<lparr>tables = [''_migrations'' \<mapsto> [(''a'', 0), (''b'', 5), (''c'', 5)]],
         user_data = [''up b'', ''up c''], ddl_log = []\<rparr>) \<and>
   Up (runner_of sound_conn [unit_ok ''a'', unit_ok ''b'', unit_ok ''c'']) (\<lambda>f. 9)
        \<lparr>tables = [''_migrations'' \<mapsto> [(''a'', 0), (''b'', 5), (''c'', 5)]],
         user_data = [''up b'', ''up c''], ddl_log = []\<rparr>
     = (Inr [],
        \<lparr>tables = [''_migrations'' \<mapsto> [(''a'', 0), (''b'', 5), (''c'', 5)]],
         user_data = [''up b'', ''up c''], ddl_log = []\<rparr>) \<and>
   ledger_files (runner_of sound_conn [unit_ok ''a'', unit_ok ''b'', unit_ok ''c''])
        \<lparr>tables = [''_migrations'' \<mapsto> [(''a'', 0), (''b'', 5), (''c'', 5)]],
         user_data = [''up b'', ''up c''], ddl_log = []\<rparr>
     = [''a'', ''b'', ''c'']"
proof -
  let ?r = "runner_of sound_conn [unit_ok ''a'', unit_ok ''b'', unit_ok ''c'']"
  let ?d = "store_with [''a'']"
  let ?d1 = "\<lparr>tables = [''_migrations'' \<mapsto> [(''a'', 0), (''b'', 5), (''c'', 5)]],
              user_data = [''up b'', ''up c''], ddl_log = []\<rparr> :: string list database"
  have na: "\<not> isMigrationApplied ?r ?d ''b''"
    by (simp add: isMigrationApplied_def select_count_def scan_bool_def)
  have ap: "apply_units ?r (\<lambda>f. 5)
              (first_occurrences (map fst [(''a'', 0 :: int)]) (migrationsList ?r)) ?d = Some ?d1"
    by (simp add: unit_ok_def store_with_def)
  have "\<exists>applied d1.
           Up ?r (\<lambda>f. 5) ?d = (Inr applied, d1) \<and>
           applied = pending (map fst [(''a'', 0 :: int)]) (migrationsList ?r) \<and>
           apply_units ?r (\<lambda>f. 5)
             (first_occurrences (map fst [(''a'', 0 :: int)]) (migrationsList ?r)) ?d = Some d1 \<and>
           ((\<exists>m\<in>set (migrationsList ?r). \<not> isMigrationApplied ?r ?d (file m)) \<longrightarrow> applied \<noteq> []) \<and>
           Up ?r (\<lambda>f. 9) d1 = (Inr [], d1) \<and>
           (\<forall>m\<in>set (migrationsList ?r). count_list (ledger_files ?r d1) (file m) = 1)"
    by (rule Up_twice) simp_all
  then have "Up ?r (\<lambda>f. 5) ?d = (Inr [''b'', ''c''], ?d1) \<and> Up ?r (\<lambda>f. 9) ?d1 = (Inr [], ?d1)"
    unfolding ap by auto
  then show ?thesis using na by (simp add: ledger_files_def)
qed

subsection \<open>Duplicate identifiers in the list\<close>



subsection \<open>A failing forward operation\<close>

text \<open>
  C3: when the forward operation of a unit of the list fails, \<open>Up\<close> returns an error and
  the whole batch is rolled back. Let the list be \<open>pre @ m # post\<close>, let the loop over
  the units of \<open>pre\<close> complete in this call (having applied the units \<open>applied\<close> and
  leaving the transaction in the state \<open>tx\<close>), let \<open>m\<close> not be applied and let its forward
  operation fail in \<open>tx\<close> with the error \<open>cause\<close>. Then \<open>Up\<close> returns no list but the error
  with the message \<^verbatim>\<open>Failed to apply migration <file of m>: <message of cause>\<close> that
  wraps \<open>cause\<close>, and the store is the one from before the call, so that none of the
  units applied earlier in the call is in the ledger unless it was there before. More
  generally, whenever \<open>Up\<close> returns an error the store is the one from before the call.
\<close>

theorem Up_failure_rolls_back:
  assumes "migrationsList r = pre @ m # post"
    and "faults (db r) Begin = None"
    and "up_loop r now pre [] d = Inr (applied, tx)"
    and "\<not> isMigrationApplied r tx (file m)"
    and "up m tx = Inl cause"
  shows "(\<exists>err. Up r now d = (Inl err, d) \<and>
            Error err = ''Failed to apply migration '' @ file m @ '': '' @ Error cause \<and>
            Unwrap err = Some cause) \<and>
         ledger_files r (snd (Up r now d)) = ledger_files r d \<and>
         (\<forall>e d1. Up r now d = (Inl e, d1) \<longrightarrow> d1 = d)"
proof -
  have "up_loop r now (pre @ m # post) [] d =
          Inl (Errorf_w ''Failed to apply migration '' (file m) cause)"
    using assms(3,4,5) by (simp add: up_loop_append)
  then have run: "Up r now d = (Inl (Errorf_w ''Failed to apply migration '' (file m) cause), d)"
    using assms(1,2) by (simp add: Up_def Transactional_def Items_def)
  have "Error (Errorf_w ''Failed to apply migration '' (file m) cause) =
          ''Failed to apply migration '' @ file m @ '': '' @ Error cause"
    and "Unwrap (Errorf_w ''Failed to apply migration '' (file m) cause) = Some cause"
    by (simp_all add: Errorf_w_def)
  with run have "\<exists>err. Up r now d = (Inl err, d) \<and>
            Error err = ''Failed to apply migration '' @ file m @ '': '' @ Error cause \<and>
            Unwrap err = Some cause"
    by blast
  moreover have "ledger_files r (snd (Up r now d)) = ledger_files r d"
    using run by simp
  moreover have "\<forall>e d1. Up r now d = (Inl e, d1) \<longrightarrow> d1 = d"
    using Up_error_keeps_store by blast
  ultimately show ?thesis by blast
qed

theorem Up_failure_rolls_back_witness:
  "migrationsList (runner_of sound_conn [unit_ok ''a'', unit_failing ''b'', unit_ok ''c''])
     = [unit_ok ''a''] @ unit_failing ''b'' # [unit_ok ''c''] \<and>
   faults (db (runner_of sound_conn [unit_ok ''a'', unit_failing ''b'', unit_ok ''c''])) Begin = None \<and>
   up_loop (runner_of sound_conn [unit_ok ''a'', unit_failing ''b'', unit_ok ''c'']) (\<lambda>f. 3)
       [unit_ok ''a''] [] (store_with [])
     = Inr ([''a''],
            \<lparr>tables = [''_migrations'' \<mapsto> [(''a'', 3)]], user_data = [''up a''], ddl_log = []\<rparr>) \<and>
   \<not> isMigrationApplied (runner_of sound_conn [unit_ok ''a'', unit_failing ''b'', unit_ok ''c''])
       \<lparr>tables = [''_migrations'' \<mapsto> [(''a'', 3)]], user_data = [''up a''], ddl_log = []\<rparr>
       (file (unit_failing ''b'')) \<and>
   up (unit_failing ''b'')
       \<lparr>tables = [''_migrations'' \<mapsto> [(''a'', 3)]], user_data = [''up a''], ddl_log = []\<rparr>
     = Inl (ErrorString ''syntax error'') \<and>
   Up (runner_of sound_conn [unit_ok ''a'', unit_failing ''b'', unit_ok ''c'']) (\<lambda>f. 3)
       (store_with [])
     = (Inl (WrapError ''Failed to apply migration b: syntax error'' (ErrorString ''syntax error'')),
        store_with []) \<and>
   ledger_files (runner_of sound_conn [unit_ok ''a'', unit_failing ''b'', unit_ok ''c''])
       (snd (Up (runner_of sound_conn [unit_ok ''a'', unit_failing ''b'', unit_ok ''c''])
               (\<lambda>f. 3) (store_with [])))
     = []"
proof -
  let ?r = "runner_of sound_conn [unit_ok ''a'', unit_failing ''b'', unit_ok ''c'']"
  let ?tx = "\<lparr>tables = [''_migrations'' \<mapsto> [(''a'', 3)]], user_data = [''up a''],
              ddl_log = []\<rparr> :: string list database"
  have h1: "migrationsList ?r = [unit_ok ''a''] @ unit_failing ''b'' # [unit_ok ''c'']"
    by simp
  have h2: "faults (db ?r) Begin = None" by simp
  have h3: "up_loop ?r (\<lambda>f. 3) [unit_ok ''a''] [] (store_with []) = Inr ([''a''], ?tx)"
    by (simp add: isMigrationApplied_def select_count_def scan_bool_def saveAppliedMigration_def
          insert_row_def unit_ok_def store_with_def)
  have h4: "\<not> isMigrationApplied ?r ?tx (file (unit_failing ''b''))"
    by (simp add: isMigrationApplied_def select_count_def scan_bool_def unit_failing_def)
  have h5: "up (unit_failing ''b'') ?tx = Inl (ErrorString ''syntax error'')"
    by (simp add: unit_failing_def)
  have lf: "ledger_files ?r (store_with []) = []"
    by (simp add: ledger_files_def)
  from Up_failure_rolls_back [OF h1 h2 h3 h4 h5]
  obtain err where u: "Up ?r (\<lambda>f. 3) (store_with []) = (Inl err, store_with [])"
    and e: "Error err = ''Failed to apply migration '' @ file (unit_failing ''b'') @ '': ''
                          @ Error (ErrorString ''syntax error'')"
    and w: "Unwrap err = Some (ErrorString ''syntax error'')"
    by blast
  have "err = WrapError ''Failed to apply migration b: syntax error'' (ErrorString ''syntax error'')"
    using e w by (cases err) (simp_all add: unit_failing_def)
  with u h1 h2 h3 h4 h5 lf show ?thesis by simp
qed

lemma isMigrationApplied_fault:
  "faults (db r) (SelectCount (tableName r) f) \<noteq> None \<Longrightarrow> \<not> isMigrationApplied r tx f"
  by (auto simp: isMigrationApplied_def select_count_def)

lemma down_loop_skip:
  "\<forall>i<k. \<not> isMigrationApplied r tx (file (Item (migrationsList r) i)) \<Longrightarrow>
   down_loop r n k t acc tx = Inr (acc, tx)"
  by (induction k) (simp_all add: Let_def)

lemma up_loop_blind:
  assumes blind: "\<forall>m\<in>set ms. faults (db r) (SelectCount (tableName r) (file m)) \<noteq> None"
    and ins: "\<forall>m\<in>set ms. faults (db r) (InsertRow (tableName r) (file m)) = None"
    and ops: "\<forall>m\<in>set ms. succeeds (up m) \<and> keeps_table (tableName r) (up m)"
    and tab: "tables tx (tableName r) = Some rows"
    and dist: "distinct (map file ms)"
    and none: "file ` set ms \<inter> fst ` set rows = {}"
  shows "\<exists>tx1. up_loop r now ms acc tx = Inr (acc @ map file ms, tx1) \<and>
           apply_units r now ms tx = Some tx1"
  using assms
proof (induction ms arbitrary: acc tx rows)
  case Nil
  show ?case by simp
next
  case (Cons m ms)
  have na: "\<not> isMigrationApplied r tx (file m)"
    using Cons.prems(1) by (auto simp: isMigrationApplied_def select_count_def)
  have "succeeds (up m)" and ktm: "keeps_table (tableName r) (up m)"
    using Cons.prems(3) by simp_all
  then obtain tx1 where u: "up m tx = Inr tx1" unfolding succeeds_def by blast
  have t1: "tables tx1 (tableName r) = Some rows"
    using ktm u Cons.prems(4) by (simp add: keeps_table_def)
  have fresh: "file m \<notin> fst ` set rows" using Cons.prems(6) by auto
  define tx2 where "tx2 = tx1\<lparr>tables := (tables tx1)(tableName r \<mapsto> rows @ [(file m, now (file m))])\<rparr>"
  have s: "saveAppliedMigration r now tx1 (file m) = Inr tx2"
    using Cons.prems(2) t1 fresh by (simp add: saveAppliedMigration_def insert_row_def tx2_def)
  have t2: "tables tx2 (tableName r) = Some (rows @ [(file m, now (file m))])"
    by (simp add: tx2_def)
  have b': "\<forall>m\<in>set ms. faults (db r) (SelectCount (tableName r) (file m)) \<noteq> None"
    and i': "\<forall>m\<in>set ms. faults (db r) (InsertRow (tableName r) (file m)) = None"
    and o': "\<forall>m\<in>set ms. succeeds (up m) \<and> keeps_table (tableName r) (up m)"
    and d': "distinct (map file ms)"
    using Cons.prems(1,2,3,5) by simp_all
  have "file m \<notin> file ` set ms" using Cons.prems(5) by simp
  then have n': "file ` set ms \<inter> fst ` set (rows @ [(file m, now (file m))]) = {}"
    using Cons.prems(6) by auto
  from Cons.IH [OF b' i' o' t2 d' n', of "acc @ [file m]"]
  obtain tx3 where run: "up_loop r now ms (acc @ [file m]) tx2 = Inr ((acc @ [file m]) @ map file ms, tx3)"
    and ap: "apply_units r now ms tx2 = Some tx3"
    by blast
  have "up_loop r now (m # ms) acc tx = Inr (acc @ map file (m # ms), tx3)"
    using na u s run by simp
  moreover have "apply_units r now (m # ms) tx = Some tx3"
    using u t1 ap by (simp add: tx2_def)
  ultimately show ?case by blast
qed

subsection \<open>A failing existence query\<close>

text \<open>
  C6: when the existence query of the ledger fails for the identifier of a unit,
  \<open>isMigrationApplied\<close> answers false, and the error of the query does not reach the
  caller of \<open>Up\<close> or \<open>Down\<close>, the unit being treated as not applied. On a connection whose
  existence query fails for every unit of the list (and which can begin and commit a
  transaction): \<open>Down n\<close> returns the empty list without error and leaves the store as it
  was, whatever the ledger holds and whatever \<open>n\<close> is; and \<open>Up\<close>, on a ledger that holds
  none of the units of a list without duplicates, runs the forward operation of every
  unit, writes its row and returns all the identifiers without error (forward operations
  that succeed and leave the ledger table alone, insertions that do not fail).
\<close>

theorem query_failure_reads_as_not_applied:
  "(faults (db r) (SelectCount (tableName r) f) = Some e \<longrightarrow> isMigrationApplied r tx f = False) \<and>
   ((\<forall>m\<in>set (migrationsList r). faults (db r) (SelectCount (tableName r) (file m)) \<noteq> None) \<and>
    faults (db r) Begin = None \<and> faults (db r) Commit = None \<longrightarrow>
    Down r n d = (Inr [], d) \<and>
    (((\<forall>m\<in>set (migrationsList r). faults (db r) (InsertRow (tableName r) (file m)) = None) \<and>
      (\<forall>m\<in>set (migrationsList r). succeeds (up m) \<and> keeps_table (tableName r) (up m)) \<and>
      tables d (tableName r) = Some rows \<and>
      distinct (map file (migrationsList r)) \<and>
      file ` set (migrationsList r) \<inter> fst ` set rows = {}) \<longrightarrow>
     (\<exists>d1. Up r now d = (Inr (map file (migrationsList r)), d1) \<and>
           apply_units r now (migrationsList r) d = Some d1)))"
proof (intro conjI impI)
  assume "faults (db r) (SelectCount (tableName r) f) = Some e"
  then show "isMigrationApplied r tx f = False"
    by (simp add: isMigrationApplied_def select_count_def)
next
  assume h: "(\<forall>m\<in>set (migrationsList r). faults (db r) (SelectCount (tableName r) (file m)) \<noteq> None) \<and>
    faults (db r) Begin = None \<and> faults (db r) Commit = None"
  have "\<forall>i<length (Items (migrationsList r)).
          \<not> isMigrationApplied r d (file (Item (migrationsList r) i))"
  proof (intro allI impI)
    fix i assume "i < length (Items (migrationsList r))"
    then have "Item (migrationsList r) i \<in> set (migrationsList r)"
      by (simp add: Item_def Items_def)
    then have "faults (db r) (SelectCount (tableName r) (file (Item (migrationsList r) i))) \<noteq> None"
      using h by blast
    then show "\<not> isMigrationApplied r d (file (Item (migrationsList r) i))"
      by (rule isMigrationApplied_fault)
  qed
  then have "down_loop r n (length (Items (migrationsList r))) 0 [] d = Inr ([], d)"
    by (rule down_loop_skip)
  then show "Down r n d = (Inr [], d)"
    using h by (simp add: Down_def Transactional_def)
next
  assume h: "(\<forall>m\<in>set (migrationsList r). faults (db r) (SelectCount (tableName r) (file m)) \<noteq> None) \<and>
    faults (db r) Begin = None \<and> faults (db r) Commit = None"
  assume g: "(\<forall>m\<in>set (migrationsList r). faults (db r) (InsertRow (tableName r) (file m)) = None) \<and>
      (\<forall>m\<in>set (migrationsList r). succeeds (up m) \<and> keeps_table (tableName r) (up m)) \<and>
      tables d (tableName r) = Some rows \<and>
      distinct (map file (migrationsList r)) \<and>
      file ` set (migrationsList r) \<inter> fst ` set rows = {}"
  from h have h1: "\<forall>m\<in>set (migrationsList r). faults (db r) (SelectCount (tableName r) (file m)) \<noteq> None"
    by (rule conjunct1)
  from g have g1: "\<forall>m\<in>set (migrationsList r). faults (db r) (InsertRow (tableName r) (file m)) = None"
    and g2: "\<forall>m\<in>set (migrationsList r). succeeds (up m) \<and> keeps_table (tableName r) (up m)"
    and g3: "tables d (tableName r) = Some rows"
    and g4: "distinct (map file (migrationsList r))"
    and g5: "file ` set (migrationsList r) \<inter> fst ` set rows = {}"
    by blast+
  have "\<exists>tx1. up_loop r now (migrationsList r) [] d = Inr ([] @ map file (migrationsList r), tx1) \<and>
           apply_units r now (migrationsList r) d = Some tx1"
    by (rule up_loop_blind [OF h1 g1 g2 g3 g4 g5])
  then obtain d1 where "up_loop r now (migrationsList r) [] d = Inr (map file (migrationsList r), d1)"
    and ap: "apply_units r now (migrationsList r) d = Some d1"
    by auto
  then have "Up r now d = (Inr (map file (migrationsList r)), d1)"
    using h by (simp add: Up_def Transactional_def Items_def)
  with ap show "\<exists>d1. Up r now d = (Inr (map file (migrationsList r)), d1) \<and>
           apply_units r now (migrationsList r) d = Some d1"
    by blast
qed

theorem query_failure_reads_as_not_applied_witness:
  "faults (db (runner_of blind_conn [unit_ok ''a'', unit_ok ''b''])) (SelectCount ''_migrations'' ''a'')
     = Some (ErrorString ''connection lost'') \<and>
   isMigrationApplied (runner_of blind_conn [unit_ok ''a'', unit_ok ''b''])
       (store_with [''a'', ''b'']) ''a'' = False \<and>
   faults (db (runner_of blind_conn [unit_ok ''a'', unit_ok ''b''])) Begin = None \<and>
   faults (db (runner_of blind_conn [unit_ok ''a'', unit_ok ''b''])) Commit = None \<and>
   Down (runner_of blind_conn [unit_ok ''a'', unit_ok ''b'']) 2 (store_with [''a'', ''b''])
     = (Inr [], store_with [''a'', ''b'']) \<and>
   tables (store_with []) ''_migrations'' = Some [] \<and>
   Up (runner_of blind_conn [unit_ok ''a'', unit_ok ''b'']) (\<lambda>f. 6) (store_with [])
     = (Inr [''a'', ''b''],
        \<lparr>tables = [''_migrations'' \<mapsto> [(''a'', 6), (''b'', 6)]],
         user_data = [''up a'', ''up b''], ddl_log = []\<rparr>)"
proof -
  let ?r = "runner_of blind_conn [unit_ok ''a'', unit_ok ''b'']"
  let ?d1 = "\<lparr>tables = [''_migrations'' \<mapsto> [(''a'', 6), (''b'', 6)]],
              user_data = [''up a'', ''up b''], ddl_log = []\<rparr> :: string list database"
  have f: "\<And>name f. faults blind_conn (SelectCount name f) = Some (ErrorString ''connection lost'')"
    "faults blind_conn Begin = None" "faults blind_conn Commit = None"
    "\<And>name f. faults blind_conn (InsertRow name f) = None"
    by (simp_all add: blind_conn_def)
  have ap: "apply_units ?r (\<lambda>f. 6) (migrationsList ?r) (store_with []) = Some ?d1"
    by (simp add: unit_ok_def store_with_def)
  have a: "isMigrationApplied ?r (store_with [''a'', ''b'']) ''a'' = False"
    using query_failure_reads_as_not_applied
            [of ?r "''a''" "ErrorString ''connection lost''" "store_with [''a'', ''b'']"]
    by (simp add: f)
  have b: "Down ?r 2 (store_with [''a'', ''b'']) = (Inr [], store_with [''a'', ''b''])"
    using query_failure_reads_as_not_applied [of ?r _ _ _ 2 "store_with [''a'', ''b'']"]
    by (simp add: f)
  have "\<exists>d1. Up ?r (\<lambda>f. 6) (store_with []) = (Inr (map file (migrationsList ?r)), d1) \<and>
           apply_units ?r (\<lambda>f. 6) (migrationsList ?r) (store_with []) = Some d1"
    using query_failure_reads_as_not_applied
            [of ?r _ _ _ _ "store_with []" "[]" "\<lambda>f. 6"]
    by (simp add: f)
  then have c: "Up ?r (\<lambda>f. 6) (store_with []) = (Inr [''a'', ''b''], ?d1)"
    unfolding ap by auto
  from a b c show ?thesis by (simp add: f)
qed

subsection \<open>Construction of a Runner\<close>

text \<open>
  C8: the construction of a Runner runs the bootstrap of the ledger table exactly once,
  before the Runner is handed out, and fails fast. \<open>NewRunner\<close> submits exactly one
  statement, \<^verbatim>\<open>CREATE TABLE IF NOT EXISTS _migrations\<close>. When the store answers it with an
  error, \<open>NewRunner\<close> returns that error and no Runner. Otherwise it returns the Runner
  over the given connection and list with the table name \<^verbatim>\<open>_migrations\<close>, and in the store
  the ledger table exists: empty when it was missing, with its rows untouched when it
  existed; nothing else changes. A further construction on the resulting store, where the
  table now exists, succeeds as well and leaves tables and data as they are.
\<close>

theorem NewRunner_bootstrap:
  "(faults c (CreateTableIfNotExists migrationsTable) = Some e \<longrightarrow>
      NewRunner c l d =
        (Inl e, d\<lparr>ddl_log := ddl_log d @ [CreateTableIfNotExists migrationsTable]\<rparr>)) \<and>
   (faults c (CreateTableIfNotExists migrationsTable) = None \<longrightarrow>
      (\<exists>d1. NewRunner c l d =
              (Inr \<lparr>db = c, migrationsList = l, tableName = migrationsTable\<rparr>, d1) \<and>
            ddl_log d1 = ddl_log d @ [CreateTableIfNotExists migrationsTable] \<and>
            user_data d1 = user_data d \<and>
            tables d1 =
              (tables d)(migrationsTable \<mapsto>
                 (case tables d migrationsTable of None \<Rightarrow> [] | Some rows \<Rightarrow> rows)) \<and>
            NewRunner c l2 d1 =
              (Inr \<lparr>db = c, migrationsList = l2, tableName = migrationsTable\<rparr>,
               d1\<lparr>ddl_log := ddl_log d1 @ [CreateTableIfNotExists migrationsTable]\<rparr>)))"
proof (intro conjI impI)
  assume "faults c (CreateTableIfNotExists migrationsTable) = Some e"
  then show "NewRunner c l d =
        (Inl e, d\<lparr>ddl_log := ddl_log d @ [CreateTableIfNotExists migrationsTable]\<rparr>)"
    by (simp add: NewRunner_def createMigrationsTable_def exec_create_table_def Let_def)
next
  assume ok: "faults c (CreateTableIfNotExists migrationsTable) = None"
  define d1 where "d1 = snd (NewRunner c l d)"
  have run: "NewRunner c l d =
              (Inr \<lparr>db = c, migrationsList = l, tableName = migrationsTable\<rparr>, d1)"
    unfolding d1_def using ok
    by (cases "tables d migrationsTable")
       (simp_all add: NewRunner_def createMigrationsTable_def exec_create_table_def Let_def)
  have lg: "ddl_log d1 = ddl_log d @ [CreateTableIfNotExists migrationsTable]"
    and ud: "user_data d1 = user_data d"
    unfolding d1_def using ok
    by (cases "tables d migrationsTable";
        simp add: NewRunner_def createMigrationsTable_def exec_create_table_def Let_def)+
  have tb: "tables d1 =
              (tables d)(migrationsTable \<mapsto>
                 (case tables d migrationsTable of None \<Rightarrow> [] | Some rows \<Rightarrow> rows))"
    unfolding d1_def using ok
    by (cases "tables d migrationsTable")
       (auto simp: NewRunner_def createMigrationsTable_def exec_create_table_def Let_def)
  have "tables d1 migrationsTable \<noteq> None" by (simp add: tb)
  then have again: "NewRunner c l2 d1 =
              (Inr \<lparr>db = c, migrationsList = l2, tableName = migrationsTable\<rparr>,
               d1\<lparr>ddl_log := ddl_log d1 @ [CreateTableIfNotExists migrationsTable]\<rparr>)"
    using ok
    by (auto simp: NewRunner_def createMigrationsTable_def exec_create_table_def Let_def)
  from run lg ud tb again
  show "\<exists>d1. NewRunner c l d =
              (Inr \<lparr>db = c, migrationsList = l, tableName = migrationsTable\<rparr>, d1) \<and>
            ddl_log d1 = ddl_log d @ [CreateTableIfNotExists migrationsTable] \<and>
            user_data d1 = user_data d \<and>
            tables d1 =
              (tables d)(migrationsTable \<mapsto>
                 (case tables d migrationsTable of None \<Rightarrow> [] | Some rows \<Rightarrow> rows)) \<and>
            NewRunner c l2 d1 =
              (Inr \<lparr>db = c, migrationsList = l2, tableName = migrationsTable\<rparr>,
               d1\<lparr>ddl_log := ddl_log d1 @ [CreateTableIfNotExists migrationsTable]\<rparr>)"
    by blast
qed

theorem NewRunner_bootstrap_witness:
  "faults denied_conn (CreateTableIfNotExists migrationsTable)
     = Some (ErrorString ''attempt to write a readonly database'') \<and>
   NewRunner denied_conn [unit_ok ''a''] empty_store
     = (Inl (ErrorString ''attempt to write a readonly database''),
        \<lparr>tables = Map.empty, user_data = [],
         ddl_log = [CreateTableIfNotExists ''_migrations'']\<rparr>) \<and>
   faults sound_conn (CreateTableIfNotExists migrationsTable) = None \<and>
   NewRunner sound_conn [unit_ok ''a''] empty_store
     = (Inr \<lparr>db = sound_conn, migrationsList = [unit_ok ''a''], tableName = ''_migrations''\<rparr>,
        \<lparr>tables = [''_migrations'' \<mapsto> []], user_data = [],
         ddl_log = [CreateTableIfNotExists ''_migrations'']\<rparr>) \<and>
   NewRunner sound_conn [unit_ok ''a'', unit_ok ''b'']
        \<lparr>tables = [''_migrations'' \<mapsto> []], user_data = [],
         ddl_log = [CreateTableIfNotExists ''_migrations'']\<rparr>
     = (Inr \<lparr>db = sound_conn, migrationsList = [unit_ok ''a'', unit_ok ''b''],
             tableName = ''_migrations''\<rparr>,
        \<lparr>tables = [''_migrations'' \<mapsto> []], user_data = [],
         ddl_log = [CreateTableIfNotExists ''_migrations'',
                    CreateTableIfNotExists ''_migrations'']\<rparr>) \<and>
   NewRunner sound_conn [unit_ok ''a''] (store_with [''a''])
     = (Inr \<lparr>db = sound_conn, migrationsList = [unit_ok ''a''], tableName = ''_migrations''\<rparr>,
        \<lparr>tables = [''_migrations'' \<mapsto> [(''a'', 0)]], user_data = [],
         ddl_log = [CreateTableIfNotExists ''_migrations'']\<rparr>)"
proof -
  let ?d1 = "\<lparr>tables = [''_migrations'' \<mapsto> []], user_data = [],
              ddl_log = [CreateTableIfNotExists ''_migrations'']\<rparr> :: string list database"
  have f: "faults denied_conn (CreateTableIfNotExists migrationsTable)
             = Some (ErrorString ''attempt to write a readonly database'')"
    by (simp add: denied_conn_def)
  have a: "NewRunner denied_conn [unit_ok ''a''] empty_store
     = (Inl (ErrorString ''attempt to write a readonly database''),
        \<lparr>tables = Map.empty, user_data = [],
         ddl_log = [CreateTableIfNotExists ''_migrations'']\<rparr>)"
    using NewRunner_bootstrap [of denied_conn "ErrorString ''attempt to write a readonly database''"
            "[unit_ok ''a'']" empty_store]
    by (simp add: f) (simp add: empty_store_def migrationsTable_def)
  obtain d1 where r1: "NewRunner sound_conn [unit_ok ''a''] empty_store =
              (Inr \<lparr>db = sound_conn, migrationsList = [unit_ok ''a''], tableName = migrationsTable\<rparr>, d1)"
    and lg: "ddl_log d1 = ddl_log empty_store @ [CreateTableIfNotExists migrationsTable]"
    and ud: "user_data d1 = user_data empty_store"
    and tb: "tables d1 = (tables empty_store)(migrationsTable \<mapsto>
                 (case tables empty_store migrationsTable of None \<Rightarrow> [] | Some rows \<Rightarrow> rows))"
    and r2: "NewRunner sound_conn [unit_ok ''a'', unit_ok ''b''] d1 =
              (Inr \<lparr>db = sound_conn, migrationsList = [unit_ok ''a'', unit_ok ''b''],
                    tableName = migrationsTable\<rparr>,
               d1\<lparr>ddl_log := ddl_log d1 @ [CreateTableIfNotExists migrationsTable]\<rparr>)"
    using NewRunner_bootstrap [of sound_conn _ "[unit_ok ''a'']" empty_store
            "[unit_ok ''a'', unit_ok ''b'']"]
    by auto
  have d1: "d1 = ?d1"
    using lg ud tb by (cases d1) (simp add: empty_store_def migrationsTable_def)
  obtain d3 where r3: "NewRunner sound_conn [unit_ok ''a''] (store_with [''a'']) =
              (Inr \<lparr>db = sound_conn, migrationsList = [unit_ok ''a''], tableName = migrationsTable\<rparr>, d3)"
    and lg3: "ddl_log d3 = ddl_log (store_with [''a'']) @ [CreateTableIfNotExists migrationsTable]"
    and ud3: "user_data d3 = user_data (store_with [''a''])"
    and tb3: "tables d3 = (tables (store_with [''a'']))(migrationsTable \<mapsto>
                 (case tables (store_with [''a'']) migrationsTable of None \<Rightarrow> [] | Some rows \<Rightarrow> rows))"
    using NewRunner_bootstrap [of sound_conn _ "[unit_ok ''a'']" "store_with [''a'']"]
    by auto
  have d3: "d3 = \<lparr>tables = [''_migrations'' \<mapsto> [(''a'', 0)]], user_data = [],
                  ddl_log = [CreateTableIfNotExists ''_migrations'']\<rparr>"
    using lg3 ud3 tb3 by (cases d3) (simp add: store_with_def migrationsTable_def)
  show ?thesis
    using f a r1 r2 r3 unfolding d1 d3 by (simp add: migrationsTable_def)
qed

subsection \<open>The defaults of Run\<close>

text \<open>
  C9: in \<open>Run\<close>, no argument at all means the command \<^verbatim>\<open>up\<close>: the call does what the case
  \<^verbatim>\<open>"up"\<close> does, whose store is the one \<open>Up\<close> leaves. The command \<^verbatim>\<open>down\<close> without a count
  runs the case \<^verbatim>\<open>"down"\<close> with the count 1. A count that converts to a negative integer is
  replaced by the length of the migrations list, whatever the number of applied units is;
  any other count is passed on as it is. In the case \<^verbatim>\<open>"down"\<close> with count \<open>n\<close> the prompt
  names \<open>n\<close>, and once the user has confirmed, \<open>Down\<close> is called with \<open>n\<close>: the store and
  the error are those of \<open>Down n\<close>.
\<close>

theorem Run_defaults:
  "Run sh r now [] d = Run sh r now [''up''] d \<and>
   Run sh r now [] d = run_up r now d \<and>
   snd (run_up r now d) = snd (Up r now d) \<and>
   Run sh r now [''down''] d = run_down sh r 1 d \<and>
   (ToInt sh s < 0 \<longrightarrow>
      Run sh r now (''down'' # s # rest) d =
        run_down sh r (int (length (Items (migrationsList r)))) d) \<and>
   (0 \<le> ToInt sh s \<longrightarrow>
      Run sh r now (''down'' # s # rest) d = run_down sh r (ToInt sh s) d) \<and>
   (AskOne sh (''Do you really want to revert the last '' @ itoa n @ '' applied migration(s)?'') \<longrightarrow>
      snd (run_down sh r n d) = snd (Down r n d) \<and>
      fst (fst (run_down sh r n d)) =
        (case fst (Down r n d) of Inl err \<Rightarrow> Some err | Inr reverted \<Rightarrow> None) \<and>
      hd (snd (fst (run_down sh r n d))) =
        Prompt (''Do you really want to revert the last '' @ itoa n @ '' applied migration(s)?''))"
proof (intro conjI impI)
  show "Run sh r now [] d = Run sh r now [''up''] d" by (simp add: Run_def)
  show "Run sh r now [] d = run_up r now d" by (simp add: Run_def)
  show "snd (run_up r now d) = snd (Up r now d)"
    by (cases "Up r now d") (simp add: run_up_def split: sum.splits)
  show "Run sh r now [''down''] d = run_down sh r 1 d" by (simp add: Run_def)
  show "Run sh r now (''down'' # s # rest) d =
          run_down sh r (int (length (Items (migrationsList r)))) d" if "ToInt sh s < 0"
    using that by (simp add: Run_def Let_def)
  show "Run sh r now (''down'' # s # rest) d = run_down sh r (ToInt sh s) d" if "0 \<le> ToInt sh s"
    using that by (simp add: Run_def Let_def)
next
  assume y: "AskOne sh (''Do you really want to revert the last '' @ itoa n @ '' applied migration(s)?'')"
  show "snd (run_down sh r n d) = snd (Down r n d)"
    using y by (cases "Down r n d") (simp add: run_down_def Let_def split: sum.splits)
next
  assume y: "AskOne sh (''Do you really want to revert the last '' @ itoa n @ '' applied migration(s)?'')"
  show "fst (fst (run_down sh r n d)) =
        (case fst (Down r n d) of Inl err \<Rightarrow> Some err | Inr reverted \<Rightarrow> None)"
    using y by (cases "Down r n d") (simp add: run_down_def Let_def split: sum.splits)
next
  assume y: "AskOne sh (''Do you really want to revert the last '' @ itoa n @ '' applied migration(s)?'')"
  show "hd (snd (fst (run_down sh r n d))) =
        Prompt (''Do you really want to revert the last '' @ itoa n @ '' applied migration(s)?'')"
    using y by (cases "Down r n d") (simp add: run_down_def Let_def split: sum.splits)
qed

theorem Run_defaults_witness:
  "ToInt confirming_shell ''-1'' < 0 \<and>
   0 \<le> ToInt confirming_shell ''2'' \<and>
   AskOne confirming_shell
     (''Do you really want to revert the last '' @ itoa 3 @ '' applied migration(s)?'') \<and>
   Run confirming_shell (runner_of sound_conn [unit_ok ''a'', unit_ok ''b'', unit_ok ''c''])
       (\<lambda>f. 8) [] (store_with [''a''])
     = ((None, [Green ''Applied b'', Green ''Applied c'']),
        \<lparr>tables = [''_migrations'' \<mapsto> [(''a'', 0), (''b'', 8), (''c'', 8)]],
         user_data = [''up b'', ''up c''], ddl_log = []\<rparr>) \<and>
   Run confirming_shell (runner_of sound_conn [unit_ok ''a'', unit_ok ''b'', unit_ok ''c''])
       (\<lambda>f. 8) [''down''] (store_with [''a''])
     = ((None, [Prompt ''Do you really want to revert the last 1 applied migration(s)?'',
                Green ''Reverted a'']),
        \<lparr>tables = [''_migrations'' \<mapsto> []], user_data = [''down a''], ddl_log = []\<rparr>) \<and>
   Run confirming_shell (runner_of sound_conn [unit_ok ''a'', unit_ok ''b'', unit_ok ''c''])
       (\<lambda>f. 8) [''down'', ''-1''] (store_with [''a''])
     = ((None, [Prompt ''Do you really want to revert the last 3 applied migration(s)?'',
                Green ''Reverted a'']),
        \<lparr>tables = [''_migrations'' \<mapsto> []], user_data = [''down a''], ddl_log = []\<rparr>) \<and>
   Run confirming_shell (runner_of sound_conn [unit_ok ''a'', unit_ok ''b'', unit_ok ''c''])
       (\<lambda>f. 8) [''down'', ''2''] (store_with [''a''])
     = ((None, [Prompt ''Do you really want to revert the last 2 applied migration(s)?'',
                Green ''Reverted a'']),
        \<lparr>tables = [''_migrations'' \<mapsto> []], user_data = [''down a''], ddl_log = []\<rparr>) \<and>
   snd (run_down confirming_shell
          (runner_of sound_conn [unit_ok ''a'', unit_ok ''b'', unit_ok ''c'']) 3 (store_with [''a'']))
     = snd (Down (runner_of sound_conn [unit_ok ''a'', unit_ok ''b'', unit_ok ''c'']) 3
              (store_with [''a''])) \<and>
   Down (runner_of sound_conn [unit_ok ''a'', unit_ok ''b'', unit_ok ''c'']) 3 (store_with [''a''])
     = (Inr [''a''],
        \<lparr>tables = [''_migrations'' \<mapsto> []], user_data = [''down a''], ddl_log = []\<rparr>)"
proof -
  let ?l = "[unit_ok ''a'', unit_ok ''b'', unit_ok ''c'']"
  let ?r = "runner_of sound_conn ?l"
  let ?d = "store_with [''a'']"
  let ?u = "\<lparr>tables = [''_migrations'' \<mapsto> [(''a'', 0), (''b'', 8), (''c'', 8)]],
             user_data = [''up b'', ''up c''], ddl_log = []\<rparr> :: string list database"
  let ?v = "\<lparr>tables = [''_migrations'' \<mapsto> []], user_data = [''down a''],
             ddl_log = []\<rparr> :: string list database"
  have sh: "ToInt confirming_shell ''-1'' = - 1" "ToInt confirming_shell ''2'' = 2"
    "\<And>message. AskOne confirming_shell message"
    by (simp_all add: confirming_shell_def)
  have it: "itoa 1 = ''1''" "itoa 2 = ''2''" "itoa 3 = ''3''"
    by (simp_all add: itoa_def)
  have ap: "apply_units ?r (\<lambda>f. 8) (first_occurrences (map fst [(''a'', 0 :: int)]) (migrationsList ?r)) ?d
              = Some ?u"
    by (simp add: unit_ok_def store_with_def)
  have "\<exists>d1. Up ?r (\<lambda>f. 8) ?d = (Inr (pending (map fst [(''a'', 0 :: int)]) (migrationsList ?r)), d1) \<and>
           apply_units ?r (\<lambda>f. 8) (first_occurrences (map fst [(''a'', 0 :: int)]) (migrationsList ?r)) ?d
             = Some d1 \<and>
           tables d1 (tableName ?r) =
             Some ([(''a'', 0)] @ map (\<lambda>f. (f, 8))
                    (pending (map fst [(''a'', 0 :: int)]) (migrationsList ?r)))"
    by (rule Up_ok) simp_all
  then have up: "Up ?r (\<lambda>f. 8) ?d = (Inr [''b'', ''c''], ?u)"
    unfolding ap by auto
  have au: "applied_units ?r ?d = [unit_ok ''a'']"
    by (simp add: applied_units_sound)
  have rv: "revert_units ?r (rev (applied_units ?r ?d)) ?d = Some ?v"
    unfolding au by (simp add: unit_ok_def store_with_def)
  have dn: "Down ?r n ?d = (Inr [''a''], ?v)" if "0 < n" for n
  proof -
    have "\<exists>d1. Down ?r n ?d = (Inr (rev (map file (applied_units ?r ?d))), d1) \<and>
            revert_units ?r (rev (applied_units ?r ?d)) ?d = Some d1 \<and>
            tables d1 (tableName ?r) =
              Some (filter (\<lambda>row. fst row \<notin> file ` set (migrationsList ?r))
                     (map (\<lambda>f. (f, 0)) [''a''])) \<and>
            applied_units ?r d1 = []"
      using that by (intro Down_all) simp_all
    then show ?thesis unfolding rv by (auto simp: au)
  qed
  note neg = Run_defaults [of confirming_shell ?r "\<lambda>f. 8" ?d "''-1''" "[]" 3]
  note pos = Run_defaults [of confirming_shell ?r "\<lambda>f. 8" ?d "''2''" "[]" 2]
  have e0: "Run confirming_shell ?r (\<lambda>f. 8) [] ?d = run_up ?r (\<lambda>f. 8) ?d"
    by (rule neg [THEN conjunct2, THEN conjunct1])
  have e1: "Run confirming_shell ?r (\<lambda>f. 8) [''down''] ?d = run_down confirming_shell ?r 1 ?d"
    by (rule neg [THEN conjunct2, THEN conjunct2, THEN conjunct2, THEN conjunct1])
  have e3: "Run confirming_shell ?r (\<lambda>f. 8) [''down'', ''-1''] ?d
              = run_down confirming_shell ?r (int (length (Items (migrationsList ?r)))) ?d"
    using neg [THEN conjunct2, THEN conjunct2, THEN conjunct2, THEN conjunct2, THEN conjunct1]
    by (simp add: sh)
  have e2: "Run confirming_shell ?r (\<lambda>f. 8) [''down'', ''2''] ?d
              = run_down confirming_shell ?r (ToInt confirming_shell ''2'') ?d"
    using pos [THEN conjunct2, THEN conjunct2, THEN conjunct2, THEN conjunct2, THEN conjunct2,
               THEN conjunct1]
    by (simp add: sh)
  have r0: "Run confirming_shell ?r (\<lambda>f. 8) [] ?d
              = ((None, [Green ''Applied b'', Green ''Applied c'']), ?u)"
    unfolding e0 by (simp add: run_up_def up)
  have r1: "Run confirming_shell ?r (\<lambda>f. 8) [''down''] ?d
              = ((None, [Prompt ''Do you really want to revert the last 1 applied migration(s)?'',
                         Green ''Reverted a'']), ?v)"
    unfolding e1 by (simp add: run_down_def sh it dn)
  have r3: "Run confirming_shell ?r (\<lambda>f. 8) [''down'', ''-1''] ?d
              = ((None, [Prompt ''Do you really want to revert the last 3 applied migration(s)?'',
                         Green ''Reverted a'']), ?v)"
    unfolding e3 by (simp add: run_down_def sh it dn Items_def)
  have r2: "Run confirming_shell ?r (\<lambda>f. 8) [''down'', ''2''] ?d
              = ((None, [Prompt ''Do you really want to revert the last 2 applied migration(s)?'',
                         Green ''Reverted a'']), ?v)"
    unfolding e2 by (simp add: run_down_def sh it dn)
  have e4: "snd (run_down confirming_shell ?r 3 ?d) = snd (Down ?r 3 ?d)"
    using neg [THEN conjunct2, THEN conjunct2, THEN conjunct2, THEN conjunct2, THEN conjunct2,
               THEN conjunct2]
    by (simp add: sh)
  have d3: "Down ?r 3 ?d = (Inr [''a''], ?v)" by (rule dn) simp
  from r0 r1 r2 r3 e4 d3 show ?thesis by (simp add: sh)
qed

end
